theory Spec2Isabelle
  imports Complex_Main "HOL-Library.Log_Nat"
begin

section \<open>JavaScript numbers\<close>

text \<open>
  Every number of the calculator is a JavaScript Number: an IEEE 754 binary64 value.
  A finite value is represented by the rational it denotes, the two infinities and NaN
  are constructors of their own. The two zeros are identified: the code never divides by
  a zero and never inspects the sign of one, and \<open>-0 === 0\<close>.

  Arithmetic is exact arithmetic on the rationals followed by \<open>fl\<close>, the rounding of
  a rational to the nearest binary64 value, ties to the even significand, with gradual
  underflow (values below \<open>2^-1022\<close> are multiples of \<open>2^-1074\<close>) and overflow
  to an infinity.
\<close>

datatype jsnum = Fin rat | PInf | NInf | NaN

definition round_half_even :: "rat \<Rightarrow> int" where
  "round_half_even r =
     (let f = \<lfloor>r\<rfloor>; d = r - of_int f
      in if d < 1 / 2 then f
         else if 1 / 2 < d then f + 1
         else if even f then f else f + 1)"

text \<open>The binary exponent of a positive rational: \<open>2^e \<le> x < 2^(e+1)\<close>.\<close>

definition expo :: "rat \<Rightarrow> int" where
  "expo x =
     (let (p, q) = quotient_of x; k = bitlen p - bitlen q
      in if 2 powi k \<le> x then k else k - 1)"

text \<open>
  The spacing of the binary64 values around \<open>x\<close>: 52 fraction bits below the
  exponent, and never finer than \<open>2^-1074\<close>, the smallest positive value.
\<close>

definition denorm_min :: rat where
  "denorm_min = 2 powi (- 1074)"

definition quantum :: "rat \<Rightarrow> rat" where
  "quantum x = 2 powi (max (expo \<bar>x\<bar>) (- 1022) - 52)"

definition fl :: "rat \<Rightarrow> jsnum" where
  "fl x =
     (if x = 0 then Fin 0
      else
        let q = quantum x;
            y = of_int (round_half_even (x / q)) * q
        in if 2 ^ 1024 \<le> \<bar>y\<bar> then (if 0 < x then PInf else NInf) else Fin y)"

text \<open>A decimal literal of the source denotes the binary64 value nearest to it.\<close>

definition js_lit :: "rat \<Rightarrow> jsnum" where
  "js_lit r = fl r"

definition inf_of_sign :: "rat \<Rightarrow> jsnum" where
  "inf_of_sign s = (if s = 0 then NaN else if 0 < s then PInf else NInf)"

fun js_sgn :: "jsnum \<Rightarrow> rat" where
  "js_sgn (Fin a) = sgn a"
| "js_sgn PInf = 1"
| "js_sgn NInf = - 1"
| "js_sgn NaN = 0"

fun js_neg :: "jsnum \<Rightarrow> jsnum" where
  "js_neg (Fin a) = Fin (- a)"
| "js_neg PInf = NInf"
| "js_neg NInf = PInf"
| "js_neg NaN = NaN"

fun js_mul :: "jsnum \<Rightarrow> jsnum \<Rightarrow> jsnum" where
  "js_mul NaN y = NaN"
| "js_mul x NaN = NaN"
| "js_mul (Fin a) (Fin b) = fl (a * b)"
| "js_mul x y = inf_of_sign (js_sgn x * js_sgn y)"

fun js_div :: "jsnum \<Rightarrow> jsnum \<Rightarrow> jsnum" where
  "js_div NaN y = NaN"
| "js_div x NaN = NaN"
| "js_div (Fin a) (Fin b) = (if b = 0 then inf_of_sign (sgn a) else fl (a / b))"
| "js_div (Fin a) y = Fin 0"
| "js_div x (Fin b) = inf_of_sign (js_sgn x * (if b < 0 then - 1 else 1))"
| "js_div x y = NaN"

fun js_add :: "jsnum \<Rightarrow> jsnum \<Rightarrow> jsnum" where
  "js_add NaN y = NaN"
| "js_add x NaN = NaN"
| "js_add (Fin a) (Fin b) = fl (a + b)"
| "js_add (Fin a) y = y"
| "js_add x (Fin b) = x"
| "js_add x y = (if x = y then x else NaN)"

definition js_sub :: "jsnum \<Rightarrow> jsnum \<Rightarrow> jsnum" where
  "js_sub x y = js_add x (js_neg y)"

text \<open>The relational operators; every comparison with NaN is false.\<close>

fun js_lt :: "jsnum \<Rightarrow> jsnum \<Rightarrow> bool" where
  "js_lt NaN y = False"
| "js_lt x NaN = False"
| "js_lt (Fin a) (Fin b) = (a < b)"
| "js_lt x PInf = (x \<noteq> PInf)"
| "js_lt NInf y = (y \<noteq> NInf)"
| "js_lt x y = False"

definition js_gt :: "jsnum \<Rightarrow> jsnum \<Rightarrow> bool" where
  "js_gt x y = js_lt y x"

definition js_le :: "jsnum \<Rightarrow> jsnum \<Rightarrow> bool" where
  "js_le x y = (x \<noteq> NaN \<and> y \<noteq> NaN \<and> \<not> js_lt y x)"

text \<open>Strict equality \<open>===\<close> on numbers.\<close>

definition js_eq :: "jsnum \<Rightarrow> jsnum \<Rightarrow> bool" where
  "js_eq x y = (x \<noteq> NaN \<and> x = y)"

text \<open>
  \<open>Math.round\<close>: the integer closest to the argument, the one towards \<open>+\<infinity>\<close>
  of two equally close. The integer is itself a binary64 value, since a binary64 value of
  magnitude \<open>2^52\<close> or more is integral.
\<close>

fun Math_round :: "jsnum \<Rightarrow> jsnum" where
  "Math_round (Fin a) = Fin (of_int \<lfloor>a + 1 / 2\<rfloor>)"
| "Math_round x = x"

text \<open>\<open>Math.max\<close> of two numbers: NaN if either is.\<close>

definition Math_max :: "jsnum \<Rightarrow> jsnum \<Rightarrow> jsnum" where
  "Math_max x y = (if x = NaN \<or> y = NaN then NaN else if js_lt x y then y else x)"

text \<open>
  \<open>Number.prototype.toFixed(f)\<close>. A non-finite number prints as its name. A finite
  \<open>x\<close> of magnitude \<open>10^21\<close> or more prints as \<open>ToString(x)\<close>, whose digits
  read back as \<open>x\<close>. Otherwise the digits are those of the integer \<open>n\<close> for which
  \<open>n / 10^f - \<bar>x\<bar>\<close> is as close to zero as possible, the larger \<open>n\<close> of two,
  with a minus sign for negative \<open>x\<close>. The string is represented by the number its
  digits denote; \<open>Number\<close> converts it back and rounds that to binary64.
\<close>

datatype numstr = Digits rat | StrInfinity | StrNegInfinity | StrNaN

definition toFixed_n :: "nat \<Rightarrow> rat \<Rightarrow> int" where
  "toFixed_n f x =
     (let n = \<lfloor>x * 10 ^ f\<rfloor>
      in if of_int (n + 1) / 10 ^ f - x \<le> x - of_int n / 10 ^ f then n + 1 else n)"

fun toFixed :: "nat \<Rightarrow> jsnum \<Rightarrow> numstr" where
  "toFixed f (Fin x) =
     (if 10 ^ 21 \<le> \<bar>x\<bar> then Digits x
      else if x < 0 then Digits (- (of_int (toFixed_n f (- x)) / 10 ^ f))
      else Digits (of_int (toFixed_n f x) / 10 ^ f))"
| "toFixed f PInf = StrInfinity"
| "toFixed f NInf = StrNegInfinity"
| "toFixed f NaN = StrNaN"

fun Number :: "numstr \<Rightarrow> jsnum" where
  "Number (Digits r) = fl r"
| "Number StrInfinity = PInf"
| "Number StrNegInfinity = NInf"
| "Number StrNaN = NaN"

section \<open>Configuration\<close>

text \<open>
  Both copies of \<open>CONFIG\<close> (the object literal of \<open>js/config.js\<close> and the
  module of the second application) hold the same tables. Property order is insertion
  order, which is the order \<open>for ... in\<close> and \<open>Object.keys\<close> enumerate.
  Integer literals are exact in binary64 and written \<open>Fin\<close>; decimal fractions go
  through \<open>js_lit\<close>.
\<close>

definition EMISSION_FACTORS :: "(string \<times> jsnum) list" where
  "EMISSION_FACTORS =
     [(''bicycle'', Fin 0),
      (''car'', js_lit (12 / 100)),
      (''bus'', js_lit (89 / 1000)),
      (''truck'', js_lit (96 / 100))]"

record mode_meta =
  meta_label :: string
  meta_icon :: "nat list"
  meta_color :: string

text \<open>Icons are single emoji, given by their code points.\<close>

definition TRANSPORT_MODES :: "(string \<times> mode_meta) list" where
  "TRANSPORT_MODES =
     [(''bicycle'', \<lparr>meta_label = ''Bicycle'', meta_icon = [128690], meta_color = ''#10b981''\<rparr>),
      (''car'', \<lparr>meta_label = ''Car'', meta_icon = [128663], meta_color = ''#3b82f6''\<rparr>),
      (''bus'', \<lparr>meta_label = ''Bus'', meta_icon = [128652], meta_color = ''#f59e0b''\<rparr>),
      (''truck'', \<lparr>meta_label = ''Truck'', meta_icon = [128666], meta_color = ''#ef4444''\<rparr>)]"

definition KG_PER_CREDIT :: jsnum where
  "KG_PER_CREDIT = Fin 1000"

definition PRICE_MIN_USD :: jsnum where
  "PRICE_MIN_USD = Fin 50"

definition PRICE_MAX_USD :: jsnum where
  "PRICE_MAX_USD = Fin 150"

text \<open>
  Reading a property \<open>obj[k]\<close> of an object literal: an own property gives its value,
  a name that \<open>Object.prototype\<close> defines gives that inherited function or object, any
  other name gives \<open>undefined\<close>. \<open>hasOwnProperty\<close> looks at own properties only.
\<close>

datatype jsval = Undefined | Num jsnum | Obj

definition Object_prototype_names :: "string list" where
  "Object_prototype_names =
     [''constructor'', ''toString'', ''toLocaleString'', ''valueOf'', ''hasOwnProperty'',
      ''isPrototypeOf'', ''propertyIsEnumerable'', ''__proto__'', ''__defineGetter__'',
      ''__defineSetter__'', ''__lookupGetter__'', ''__lookupSetter__'']"

definition get_prop :: "(string \<times> jsnum) list \<Rightarrow> string \<Rightarrow> jsval" where
  "get_prop obj k =
     (case map_of obj k of
        Some v \<Rightarrow> Num v
      | None \<Rightarrow> if k \<in> set Object_prototype_names then Obj else Undefined)"

definition hasOwnProperty :: "(string \<times> 'v) list \<Rightarrow> string \<Rightarrow> bool" where
  "hasOwnProperty obj k = (map_of obj k \<noteq> None)"

text \<open>\<open>ToNumber\<close>, as the operator \<open>*\<close> applies it: a function or plain object gives NaN.\<close>

fun ToNumber :: "jsval \<Rightarrow> jsnum" where
  "ToNumber (Num v) = v"
| "ToNumber Undefined = NaN"
| "ToNumber Obj = NaN"

section \<open>Sorting\<close>

text \<open>
  \<open>Array.prototype.sort\<close> with a comparator is stable, and a comparator result of NaN
  counts as \<open>+0\<close>. An element goes after the elements it compares greater than.
\<close>

fun insort_cmp :: "('a \<Rightarrow> 'a \<Rightarrow> jsnum) \<Rightarrow> 'a \<Rightarrow> 'a list \<Rightarrow> 'a list" where
  "insort_cmp cmp x [] = [x]"
| "insort_cmp cmp x (y # ys) =
     (if js_gt (cmp x y) (Fin 0) then y # insort_cmp cmp x ys else x # y # ys)"

definition js_sort :: "('a \<Rightarrow> 'a \<Rightarrow> jsnum) \<Rightarrow> 'a list \<Rightarrow> 'a list" where
  "js_sort cmp xs = foldr (insort_cmp cmp) xs []"

section \<open>The calculator object of \<open>js/calculator.js\<close> (first application)\<close>

text \<open>
  \<open>var Calculator = { ... }\<close>. Its functions never throw on numbers: invalid input
  gives 0.
\<close>

definition Calculator_calculateEmission :: "jsnum \<Rightarrow> string \<Rightarrow> jsnum" where
  "Calculator_calculateEmission distanceKm transportMode =
     (let factor = get_prop EMISSION_FACTORS transportMode
      in if factor = Undefined \<or> js_le distanceKm (Fin 0) then Fin 0
         else
           let emission = js_mul distanceKm (ToNumber factor)
           in Number (toFixed 2 emission))"

record mode_result =
  mode :: string
  emission :: jsnum
  percentageVsCar :: jsnum

text \<open>The body of the \<open>for ... in\<close> loop: the entry pushed for one mode.\<close>

definition Calculator_mode_entry :: "jsnum \<Rightarrow> jsnum \<Rightarrow> string \<Rightarrow> mode_result" where
  "Calculator_mode_entry distanceKm carEmission m =
     (let e = Calculator_calculateEmission distanceKm m;
          p = (if js_gt carEmission (Fin 0)
               then js_mul (js_div e carEmission) (Fin 100)
               else Fin 0)
      in \<lparr>mode = m, emission = e, percentageVsCar = Number (toFixed 2 p)\<rparr>)"

definition Calculator_calculateAllModes :: "jsnum \<Rightarrow> mode_result list" where
  "Calculator_calculateAllModes distanceKm =
     (let carEmission = Calculator_calculateEmission distanceKm ''car'';
          results = map (Calculator_mode_entry distanceKm carEmission) (map fst EMISSION_FACTORS)
      in js_sort (\<lambda>a b. js_sub (emission a) (emission b)) results)"

record savings =
  savedKg :: jsnum
  percentage :: jsnum

definition Calculator_calculateSavingd :: "jsnum \<Rightarrow> jsnum \<Rightarrow> savings" where
  "Calculator_calculateSavingd emission_in baselineEmission =
     (if js_le baselineEmission (Fin 0) then \<lparr>savedKg = Fin 0, percentage = Fin 0\<rparr>
      else
        let saved = js_sub baselineEmission emission_in;
            pct = js_mul (js_div saved baselineEmission) (Fin 100)
        in \<lparr>savedKg = Number (toFixed 2 saved), percentage = Number (toFixed 2 pct)\<rparr>)"

definition Calculator_calculateCarbonCredits :: "jsnum \<Rightarrow> jsnum" where
  "Calculator_calculateCarbonCredits emissionKg =
     (if js_le emissionKg (Fin 0) then Fin 0
      else
        let credits = js_div emissionKg KG_PER_CREDIT
        in Number (toFixed 4 credits))"

record credit_price =
  price_min :: jsnum
  price_max :: jsnum
  price_average :: jsnum

definition Calculator_estimatedCreditPrice :: "jsnum \<Rightarrow> credit_price" where
  "Calculator_estimatedCreditPrice credits =
     (if js_le credits (Fin 0)
      then \<lparr>price_min = Fin 0, price_max = Fin 0, price_average = Fin 0\<rparr>
      else
        let lo = js_mul credits PRICE_MIN_USD;
            hi = js_mul credits PRICE_MAX_USD;
            avg = js_div (js_add lo hi) (Fin 2)
        in \<lparr>price_min = Number (toFixed 2 lo),
            price_max = Number (toFixed 2 hi),
            price_average = Number (toFixed 2 avg)\<rparr>)"

section \<open>The calculator module of \<open>js/calculator.js\<close> (second application)\<close>

text \<open>
  \<open>const Calculator = (function() { const calculator = { ... }; return calculator; })()\<close>.
  Its functions throw an \<open>Error\<close> on invalid input. The arguments of the model are
  numbers, so the \<open>typeof ... !== 'number'\<close> halves of its guards are false.
\<close>

datatype error =
    InvalidDistance
  | UnknownMode string
  | NegativeEmission
  | NegativeCredits
  | TypeError

definition round2 :: "jsnum \<Rightarrow> jsnum" where
  "round2 x = js_div (Math_round (js_mul x (Fin 100))) (Fin 100)"

definition calculator_calculateEmission :: "jsnum \<Rightarrow> string \<Rightarrow> error + jsnum" where
  "calculator_calculateEmission distanceKm transportMode =
     (if js_le distanceKm (Fin 0) then Inl InvalidDistance
      else if \<not> hasOwnProperty EMISSION_FACTORS transportMode
        then Inl (UnknownMode transportMode)
      else
        let emissionFactor = ToNumber (get_prop EMISSION_FACTORS transportMode);
            emission = js_mul distanceKm emissionFactor
        in Inr (round2 emission))"

record mode_info = mode_result +
  label :: string
  icon :: "nat list"
  color :: string

text \<open>
  The body of the \<open>forEach\<close> over \<open>Object.keys(CONFIG.EMISSION_FACTORS)\<close>; an exception
  in one iteration ends the loop.
\<close>

definition percentage_of :: "jsnum \<Rightarrow> jsnum \<Rightarrow> jsnum" where
  "percentage_of e carEmission =
     (if js_eq carEmission (Fin 0)
      then (if js_eq e (Fin 0) then Fin 100 else PInf)
      else Math_round (js_mul (js_div e carEmission) (Fin 100)))"

fun allModes_each :: "jsnum \<Rightarrow> jsnum \<Rightarrow> string list \<Rightarrow> error + mode_info list" where
  "allModes_each distanceKm carEmission [] = Inr []"
| "allModes_each distanceKm carEmission (m # ms) =
     (case calculator_calculateEmission distanceKm m of
        Inl err \<Rightarrow> Inl err
      | Inr e \<Rightarrow>
          (case map_of TRANSPORT_MODES m of
             None \<Rightarrow> Inl TypeError
           | Some meta \<Rightarrow>
               (case allModes_each distanceKm carEmission ms of
                  Inl err \<Rightarrow> Inl err
                | Inr rest \<Rightarrow>
                    Inr (\<lparr>mode = m, emission = e,
                          percentageVsCar = percentage_of e carEmission,
                          label = meta_label meta, icon = meta_icon meta,
                          color = meta_color meta\<rparr> # rest))))"

definition calculator_calculateAllModes :: "jsnum \<Rightarrow> error + mode_info list" where
  "calculator_calculateAllModes distanceKm =
     (if js_le distanceKm (Fin 0) then Inl InvalidDistance
      else
        case calculator_calculateEmission distanceKm ''car'' of
          Inl err \<Rightarrow> Inl err
        | Inr carEmission \<Rightarrow>
            (case allModes_each distanceKm carEmission (map fst EMISSION_FACTORS) of
               Inl err \<Rightarrow> Inl err
             | Inr results \<Rightarrow> Inr (js_sort (\<lambda>a b. js_sub (emission a) (emission b)) results)))"

definition calculator_calculateSavings :: "jsnum \<Rightarrow> jsnum \<Rightarrow> savings" where
  "calculator_calculateSavings emission_in baselineEmission =
     (if js_le baselineEmission (Fin 0) then \<lparr>savedKg = Fin 0, percentage = Fin 0\<rparr>
      else
        let saved = Math_max (Fin 0) (js_sub baselineEmission emission_in);
            pct = js_mul (js_div saved baselineEmission) (Fin 100)
        in \<lparr>savedKg = round2 saved, percentage = round2 pct\<rparr>)"

definition calculator_calculateCarbonCredits :: "jsnum \<Rightarrow> error + jsnum" where
  "calculator_calculateCarbonCredits emissionKg =
     (if js_lt emissionKg (Fin 0) then Inl NegativeEmission
      else
        let credits = js_div emissionKg KG_PER_CREDIT
        in Inr (js_div (Math_round (js_mul credits (Fin 10000))) (Fin 10000)))"

definition calculator_estimateCreditPrice :: "jsnum \<Rightarrow> error + credit_price" where
  "calculator_estimateCreditPrice credits =
     (if js_lt credits (Fin 0) then Inl NegativeCredits
      else
        let minPrice = js_mul credits PRICE_MIN_USD;
            maxPrice = js_mul credits PRICE_MAX_USD;
            averagePrice = js_div (js_add minPrice maxPrice) (Fin 2)
        in Inr \<lparr>price_min = round2 minPrice,
                price_max = round2 maxPrice,
                price_average = round2 averagePrice\<rparr>)"

section \<open>The route tables of \<open>js/routes-data.js\<close>\<close>

text \<open>
  A JavaScript string is a sequence of UTF-16 code units, here natural numbers; the
  literals of the source are ASCII and written through \<open>units\<close>. \<open>null\<close> is
  \<open>None\<close>.
\<close>

type_synonym jsstring = "nat list"

definition units :: "string \<Rightarrow> jsstring" where
  "units s = map of_char s"

text \<open>\<open>trim\<close> removes white space and line terminators from both ends.\<close>

definition is_ws :: "nat \<Rightarrow> bool" where
  "is_ws c =
     (c \<in> {9, 10, 11, 12, 13, 32, 160, 5760, 8232, 8233, 8239, 8287, 12288, 65279}
      \<or> (8192 \<le> c \<and> c \<le> 8202))"

definition trim :: "jsstring \<Rightarrow> jsstring" where
  "trim s = rev (dropWhile is_ws (rev (dropWhile is_ws s)))"

text \<open>
  \<open>toLowerCase\<close> reads the string as code points, a lead surrogate followed by a
  trail surrogate being one code point, converts them by the default case conversion
  of Unicode, and writes the result as code units again.
\<close>

definition is_lead :: "nat \<Rightarrow> bool" where
  "is_lead c = (55296 \<le> c \<and> c \<le> 56319)"

definition is_trail :: "nat \<Rightarrow> bool" where
  "is_trail c = (56320 \<le> c \<and> c \<le> 57343)"

fun StringToCodePoints :: "jsstring \<Rightarrow> nat list" where
  "StringToCodePoints [] = []"
| "StringToCodePoints [c] = [c]"
| "StringToCodePoints (c # d # s) =
     (if is_lead c \<and> is_trail d
      then (65536 + (c - 55296) * 1024 + (d - 56320)) # StringToCodePoints s
      else c # StringToCodePoints (d # s))"

definition UTF16EncodeCodePoint :: "nat \<Rightarrow> nat list" where
  "UTF16EncodeCodePoint cp =
     (if cp < 65536 then [cp]
      else [55296 + (cp - 65536) div 1024, 56320 + (cp - 65536) mod 1024])"

definition CodePointsToString :: "nat list \<Rightarrow> jsstring" where
  "CodePointsToString cps = concat (map UTF16EncodeCodePoint cps)"

text \<open>
  What the conversion reads of the Unicode character database is no part of the source:
  the full lower-case and upper-case mappings of a code point and the properties
  \<open>Cased\<close> and \<open>Case_Ignorable\<close>. It is the parameter \<open>ucd\<close> of every function
  here. Only the part for ASCII is written out: \<open>A\<close> to \<open>Z\<close> map to \<open>a\<close> to
  \<open>z\<close> and back, no other ASCII code point changes, the ASCII letters are the cased
  ASCII code points, and apostrophe, full stop, colon, circumflex and grave accent the
  case-ignorable ones.
\<close>

record unicode =
  Lowercase_Mapping :: "nat \<Rightarrow> nat list"
  Uppercase_Mapping :: "nat \<Rightarrow> nat list"
  Cased :: "nat \<Rightarrow> bool"
  Case_Ignorable :: "nat \<Rightarrow> bool"

definition lower_point :: "unicode \<Rightarrow> nat \<Rightarrow> nat list" where
  "lower_point ucd c =
     (if 65 \<le> c \<and> c \<le> 90 then [c + 32] else if c < 128 then [c]
      else Lowercase_Mapping ucd c)"

definition upper_point :: "unicode \<Rightarrow> nat \<Rightarrow> nat list" where
  "upper_point ucd c =
     (if 97 \<le> c \<and> c \<le> 122 then [c - 32] else if c < 128 then [c]
      else Uppercase_Mapping ucd c)"

definition cased :: "unicode \<Rightarrow> nat \<Rightarrow> bool" where
  "cased ucd c =
     (if c < 128 then (65 \<le> c \<and> c \<le> 90) \<or> (97 \<le> c \<and> c \<le> 122) else Cased ucd c)"

definition case_ignorable :: "unicode \<Rightarrow> nat \<Rightarrow> bool" where
  "case_ignorable ucd c =
     (if c < 128 then c \<in> {39, 46, 58, 94, 96} else Case_Ignorable ucd c)"

text \<open>
  The one mapping that depends on the neighbours: capital sigma (U+03A3) becomes final
  sigma (U+03C2) when it is preceded by a cased letter and then any number of
  case-ignorable code points, and not followed by any number of case-ignorable code
  points and then a cased letter. \<open>cased_first\<close> reads a list outwards from the
  sigma; \<open>toLowercase\<close> carries the code points already passed, the nearest first.
\<close>

fun cased_first :: "unicode \<Rightarrow> nat list \<Rightarrow> bool" where
  "cased_first ucd [] = False"
| "cased_first ucd (c # cs) = (cased ucd c \<or> (case_ignorable ucd c \<and> cased_first ucd cs))"

definition Final_Sigma :: "unicode \<Rightarrow> nat list \<Rightarrow> nat list \<Rightarrow> bool" where
  "Final_Sigma ucd before after = (cased_first ucd before \<and> \<not> cased_first ucd after)"

fun toLowercase :: "unicode \<Rightarrow> nat list \<Rightarrow> nat list \<Rightarrow> nat list" where
  "toLowercase ucd before [] = []"
| "toLowercase ucd before (c # cs) =
     (if c = 931 \<and> Final_Sigma ucd before cs then [962] else lower_point ucd c)
     @ toLowercase ucd (c # before) cs"

definition toLowerCase :: "unicode \<Rightarrow> jsstring \<Rightarrow> jsstring" where
  "toLowerCase ucd s = CodePointsToString (toLowercase ucd [] (StringToCodePoints s))"

text \<open>
  \<open>toUpperCase\<close> has no mapping that depends on the neighbours; the code does not
  call it, it serves to write down a change of letter case.
\<close>

definition toUpperCase :: "unicode \<Rightarrow> jsstring \<Rightarrow> jsstring" where
  "toUpperCase ucd s =
     CodePointsToString (concat (map (upper_point ucd) (StringToCodePoints s)))"

text \<open>
  The Unicode data of the Latin-1 Supplement and Latin Extended-A blocks (U+0080 to
  U+017F): the code points that have a lower-case, respectively upper-case, image other
  than themselves, the cased and the case-ignorable code points. Among those left alone
  by the lower-case table are U+017F (long s) and U+0131 (dotless i), whose upper-case
  images are \<open>S\<close> and \<open>I\<close>. \<open>latin\<close> is used on strings within ASCII and the
  two blocks only; it leaves a code point outside them unchanged.
\<close>

definition latin_lower_table :: "(nat \<times> nat list) list" where
  "latin_lower_table =
     [(192, [224]), (193, [225]), (194, [226]), (195, [227]), (196, [228]), (197, [229]),
      (198, [230]), (199, [231]), (200, [232]), (201, [233]), (202, [234]), (203, [235]),
      (204, [236]), (205, [237]), (206, [238]), (207, [239]), (208, [240]), (209, [241]),
      (210, [242]), (211, [243]), (212, [244]), (213, [245]), (214, [246]), (216, [248]),
      (217, [249]), (218, [250]), (219, [251]), (220, [252]), (221, [253]), (222, [254]),
      (256, [257]), (258, [259]), (260, [261]), (262, [263]), (264, [265]), (266, [267]),
      (268, [269]), (270, [271]), (272, [273]), (274, [275]), (276, [277]), (278, [279]),
      (280, [281]), (282, [283]), (284, [285]), (286, [287]), (288, [289]), (290, [291]),
      (292, [293]), (294, [295]), (296, [297]), (298, [299]), (300, [301]), (302, [303]),
      (304, [105, 775]), (306, [307]), (308, [309]), (310, [311]), (313, [314]), (315, [316]),
      (317, [318]), (319, [320]), (321, [322]), (323, [324]), (325, [326]), (327, [328]),
      (330, [331]), (332, [333]), (334, [335]), (336, [337]), (338, [339]), (340, [341]),
      (342, [343]), (344, [345]), (346, [347]), (348, [349]), (350, [351]), (352, [353]),
      (354, [355]), (356, [357]), (358, [359]), (360, [361]), (362, [363]), (364, [365]),
      (366, [367]), (368, [369]), (370, [371]), (372, [373]), (374, [375]), (376, [255]),
      (377, [378]), (379, [380]), (381, [382])]"

definition latin_upper_table :: "(nat \<times> nat list) list" where
  "latin_upper_table =
     [(181, [924]), (223, [83, 83]), (224, [192]), (225, [193]), (226, [194]), (227, [195]),
      (228, [196]), (229, [197]), (230, [198]), (231, [199]), (232, [200]), (233, [201]),
      (234, [202]), (235, [203]), (236, [204]), (237, [205]), (238, [206]), (239, [207]),
      (240, [208]), (241, [209]), (242, [210]), (243, [211]), (244, [212]), (245, [213]),
      (246, [214]), (248, [216]), (249, [217]), (250, [218]), (251, [219]), (252, [220]),
      (253, [221]), (254, [222]), (255, [376]), (257, [256]), (259, [258]), (261, [260]),
      (263, [262]), (265, [264]), (267, [266]), (269, [268]), (271, [270]), (273, [272]),
      (275, [274]), (277, [276]), (279, [278]), (281, [280]), (283, [282]), (285, [284]),
      (287, [286]), (289, [288]), (291, [290]), (293, [292]), (295, [294]), (297, [296]),
      (299, [298]), (301, [300]), (303, [302]), (305, [73]), (307, [306]), (309, [308]),
      (311, [310]), (314, [313]), (316, [315]), (318, [317]), (320, [319]), (322, [321]),
      (324, [323]), (326, [325]), (328, [327]), (329, [700, 78]), (331, [330]), (333, [332]),
      (335, [334]), (337, [336]), (339, [338]), (341, [340]), (343, [342]), (345, [344]),
      (347, [346]), (349, [348]), (351, [350]), (353, [352]), (355, [354]), (357, [356]),
      (359, [358]), (361, [360]), (363, [362]), (365, [364]), (367, [366]), (369, [368]),
      (371, [370]), (373, [372]), (375, [374]), (378, [377]), (380, [379]), (382, [381]),
      (383, [83])]"

definition latin_lower :: "nat \<Rightarrow> nat list" where
  "latin_lower c = (case map_of latin_lower_table c of Some us \<Rightarrow> us | None \<Rightarrow> [c])"

definition latin_upper :: "nat \<Rightarrow> nat list" where
  "latin_upper c = (case map_of latin_upper_table c of Some us \<Rightarrow> us | None \<Rightarrow> [c])"

definition latin_cased :: "nat \<Rightarrow> bool" where
  "latin_cased c =
     (c \<in> {170, 181, 186} \<or> (192 \<le> c \<and> c \<le> 214) \<or> (216 \<le> c \<and> c \<le> 246)
      \<or> (248 \<le> c \<and> c \<le> 383))"

definition latin_case_ignorable :: "nat \<Rightarrow> bool" where
  "latin_case_ignorable c = (c \<in> {168, 173, 175, 180, 183, 184})"

definition latin :: unicode where
  "latin = \<lparr>Lowercase_Mapping = latin_lower, Uppercase_Mapping = latin_upper,
             Cased = latin_cased, Case_Ignorable = latin_case_ignorable\<rparr>"

record route =
  origin :: jsstring
  destination :: jsstring
  distanceKm :: jsnum

text \<open>The table of the module \<open>const RoutesDB = (function() { ... })()\<close>.\<close>

definition routes_module :: "route list" where
  "routes_module =
     [\<lparr>origin = units ''Toronto, ON'', destination = units ''Ottawa, ON'', distanceKm = Fin 451\<rparr>,
      \<lparr>origin = units ''Toronto, ON'', destination = units ''Montreal, QC'', distanceKm = Fin 542\<rparr>,
      \<lparr>origin = units ''Toronto, ON'', destination = units ''Vancouver, BC'', distanceKm = Fin 4350\<rparr>,
      \<lparr>origin = units ''Toronto, ON'', destination = units ''New York, NY'', distanceKm = Fin 874\<rparr>,
      \<lparr>origin = units ''Toronto, ON'', destination = units ''Chicago, IL'', distanceKm = Fin 838\<rparr>,
      \<lparr>origin = units ''Ottawa, ON'', destination = units ''Montreal, QC'', distanceKm = Fin 199\<rparr>,
      \<lparr>origin = units ''Ottawa, ON'', destination = units ''Edmonton, AB'', distanceKm = Fin 3389\<rparr>,
      \<lparr>origin = units ''Ottawa, ON'', destination = units ''Vancouver, BC'', distanceKm = Fin 4465\<rparr>,
      \<lparr>origin = units ''Montreal, QC'', destination = units ''Quebec City, QC'', distanceKm = Fin 250\<rparr>,
      \<lparr>origin = units ''Montreal, QC'', destination = units ''Boston, MA'', distanceKm = Fin 506\<rparr>,
      \<lparr>origin = units ''Vancouver, BC'', destination = units ''Seattle, WA'', distanceKm = Fin 230\<rparr>,
      \<lparr>origin = units ''Vancouver, BC'', destination = units ''Calgary, AB'', distanceKm = Fin 970\<rparr>,
      \<lparr>origin = units ''Vancouver, BC'', destination = units ''Edmonton, AB'', distanceKm = Fin 1170\<rparr>,
      \<lparr>origin = units ''Vancouver, BC'', destination = units ''Toronto, ON'', distanceKm = Fin 4350\<rparr>,
      \<lparr>origin = units ''Calgary, AB'', destination = units ''Edmonton, AB'', distanceKm = Fin 299\<rparr>,
      \<lparr>origin = units ''Calgary, AB'', destination = units ''Winnipeg, MB'', distanceKm = Fin 1330\<rparr>,
      \<lparr>origin = units ''Edmonton, AB'', destination = units ''Saskatoon, SK'', distanceKm = Fin 525\<rparr>,
      \<lparr>origin = units ''Edmonton, AB'', destination = units ''Victoria, BC'', distanceKm = Fin 1210\<rparr>,
      \<lparr>origin = units ''Winnipeg, MB'', destination = units ''Toronto, ON'', distanceKm = Fin 2040\<rparr>,
      \<lparr>origin = units ''Winnipeg, MB'', destination = units ''Calgary, AB'', distanceKm = Fin 1330\<rparr>,
      \<lparr>origin = units ''Winnipeg, MB'', destination = units ''Saskatoon, SK'', distanceKm = Fin 785\<rparr>,
      \<lparr>origin = units ''Winnipeg, MB'', destination = units ''Thunder Bay, ON'', distanceKm = Fin 705\<rparr>,
      \<lparr>origin = units ''Halifax, NS'', destination = units ''St. John's, NL'', distanceKm = Fin 1710\<rparr>,
      \<lparr>origin = units ''Halifax, NS'', destination = units ''Montreal, QC'', distanceKm = Fin 1265\<rparr>,
      \<lparr>origin = units ''Halifax, NS'', destination = units ''Toronto, ON'', distanceKm = Fin 1795\<rparr>,
      \<lparr>origin = units ''New York, NY'', destination = units ''Washington, DC'', distanceKm = Fin 365\<rparr>,
      \<lparr>origin = units ''New York, NY'', destination = units ''Boston, MA'', distanceKm = Fin 346\<rparr>,
      \<lparr>origin = units ''New York, NY'', destination = units ''Chicago, IL'', distanceKm = Fin 1266\<rparr>,
      \<lparr>origin = units ''New York, NY'', destination = units ''Los Angeles, CA'', distanceKm = Fin 4470\<rparr>,
      \<lparr>origin = units ''Los Angeles, CA'', destination = units ''San Francisco, CA'', distanceKm = Fin 616\<rparr>,
      \<lparr>origin = units ''Los Angeles, CA'', destination = units ''Las Vegas, NV'', distanceKm = Fin 434\<rparr>,
      \<lparr>origin = units ''Los Angeles, CA'', destination = units ''San Diego, CA'', distanceKm = Fin 192\<rparr>,
      \<lparr>origin = units ''Chicago, IL'', destination = units ''Detroit, MI'', distanceKm = Fin 458\<rparr>,
      \<lparr>origin = units ''Chicago, IL'', destination = units ''St. Louis, MO'', distanceKm = Fin 467\<rparr>,
      \<lparr>origin = units ''Chicago, IL'', destination = units ''Minneapolis, MN'', distanceKm = Fin 644\<rparr>,
      \<lparr>origin = units ''Seattle, WA'', destination = units ''Portland, OR'', distanceKm = Fin 280\<rparr>,
      \<lparr>origin = units ''Seattle, WA'', destination = units ''Vancouver, BC'', distanceKm = Fin 230\<rparr>,
      \<lparr>origin = units ''Detroit, MI'', destination = units ''Windsor, ON'', distanceKm = Fin 5\<rparr>,
      \<lparr>origin = units ''Buffalo, NY'', destination = units ''Toronto, ON'', distanceKm = Fin 157\<rparr>,
      \<lparr>origin = units ''Boston, MA'', destination = units ''Montreal, QC'', distanceKm = Fin 506\<rparr>,
      \<lparr>origin = units ''San Francisco, CA'', destination = units ''Portland, OR'', distanceKm = Fin 1015\<rparr>,
      \<lparr>origin = units ''San Francisco, CA'', destination = units ''Seattle, WA'', distanceKm = Fin 1300\<rparr>,
      \<lparr>origin = units ''Miami, FL'', destination = units ''Orlando, FL'', distanceKm = Fin 346\<rparr>,
      \<lparr>origin = units ''Miami, FL'', destination = units ''Atlanta, GA'', distanceKm = Fin 1087\<rparr>,
      \<lparr>origin = units ''Atlanta, GA'', destination = units ''Nashville, TN'', distanceKm = Fin 395\<rparr>,
      \<lparr>origin = units ''Dallas, TX'', destination = units ''Houston, TX'', distanceKm = Fin 385\<rparr>,
      \<lparr>origin = units ''Dallas, TX'', destination = units ''Austin, TX'', distanceKm = Fin 320\<rparr>,
      \<lparr>origin = units ''Phoenix, AZ'', destination = units ''Tucson, AZ'', distanceKm = Fin 188\<rparr>,
      \<lparr>origin = units ''Phoenix, AZ'', destination = units ''Las Vegas, NV'', distanceKm = Fin 474\<rparr>]"

text \<open>The table of the object \<open>var RoutesDB = { ... }\<close>.\<close>

definition routes_object :: "route list" where
  "routes_object =
     [\<lparr>origin = units ''Toronto, ON'', destination = units ''Ottawa, ON'', distanceKm = Fin 451\<rparr>,
      \<lparr>origin = units ''Ottawa, ON'', destination = units ''Montreal, QC'', distanceKm = Fin 199\<rparr>,
      \<lparr>origin = units ''Toronto, ON'', destination = units ''Montreal, QC'', distanceKm = Fin 541\<rparr>,
      \<lparr>origin = units ''Edmonton, AB'', destination = units ''Ottawa, ON'', distanceKm = Fin 3389\<rparr>,
      \<lparr>origin = units ''Vancouver, BC'', destination = units ''Ottawa, ON'', distanceKm = Fin 4450\<rparr>,
      \<lparr>origin = units ''Calgary, AB'', destination = units ''Edmonton, AB'', distanceKm = Fin 299\<rparr>,
      \<lparr>origin = units ''Vancouver, BC'', destination = units ''Calgary, AB'', distanceKm = Fin 970\<rparr>,
      \<lparr>origin = units ''Winnipeg, MB'', destination = units ''Toronto, ON'', distanceKm = Fin 2225\<rparr>,
      \<lparr>origin = units ''Winnipeg, MB'', destination = units ''Regina, SK'', distanceKm = Fin 575\<rparr>,
      \<lparr>origin = units ''Regina, SK'', destination = units ''Saskatoon, SK'', distanceKm = Fin 262\<rparr>,
      \<lparr>origin = units ''Halifax, NS'', destination = units ''Moncton, NB'', distanceKm = Fin 260\<rparr>,
      \<lparr>origin = units ''Halifax, NS'', destination = units ''St. John's, NL'', distanceKm = Fin 1810\<rparr>,
      \<lparr>origin = units ''Quebec City, QC'', destination = units ''Montreal, QC'', distanceKm = Fin 252\<rparr>,
      \<lparr>origin = units ''Quebec City, QC'', destination = units ''Ottawa, ON'', distanceKm = Fin 445\<rparr>,
      \<lparr>origin = units ''Hamilton, ON'', destination = units ''Toronto, ON'', distanceKm = Fin 68\<rparr>,
      \<lparr>origin = units ''Toronto, ON'', destination = units ''New York, NY'', distanceKm = Fin 790\<rparr>,
      \<lparr>origin = units ''Toronto, ON'', destination = units ''Chicago, IL'', distanceKm = Fin 701\<rparr>,
      \<lparr>origin = units ''Vancouver, BC'', destination = units ''Seattle, WA'', distanceKm = Fin 230\<rparr>,
      \<lparr>origin = units ''Montreal, QC'', destination = units ''Boston, MA'', distanceKm = Fin 500\<rparr>,
      \<lparr>origin = units ''Vancouver, BC'', destination = units ''San Francisco, CA'', distanceKm = Fin 1275\<rparr>,
      \<lparr>origin = units ''Calgary, AB'', destination = units ''Denver, CO'', distanceKm = Fin 1350\<rparr>,
      \<lparr>origin = units ''Windsor, ON'', destination = units ''Detroit, MI'', distanceKm = Fin 11\<rparr>,
      \<lparr>origin = units ''New York, NY'', destination = units ''Washington, DC'', distanceKm = Fin 362\<rparr>,
      \<lparr>origin = units ''Washington, DC'', destination = units ''Boston, MA'', distanceKm = Fin 634\<rparr>,
      \<lparr>origin = units ''Los Angeles, CA'', destination = units ''San Francisco, CA'', distanceKm = Fin 615\<rparr>,
      \<lparr>origin = units ''Los Angeles, CA'', destination = units ''Las Vegas, NV'', distanceKm = Fin 435\<rparr>,
      \<lparr>origin = units ''San Francisco, CA'', destination = units ''Seattle, WA'', distanceKm = Fin 1306\<rparr>,
      \<lparr>origin = units ''Chicago, IL'', destination = units ''Detroit, MI'', distanceKm = Fin 454\<rparr>,
      \<lparr>origin = units ''Chicago, IL'', destination = units ''Minneapolis, MN'', distanceKm = Fin 661\<rparr>,
      \<lparr>origin = units ''Dallas, TX'', destination = units ''Houston, TX'', distanceKm = Fin 385\<rparr>,
      \<lparr>origin = units ''Atlanta, GA'', destination = units ''Miami, FL'', distanceKm = Fin 1065\<rparr>,
      \<lparr>origin = units ''Denver, CO'', destination = units ''Salt Lake City, UT'', distanceKm = Fin 830\<rparr>,
      \<lparr>origin = units ''Phoenix, AZ'', destination = units ''Las Vegas, NV'', distanceKm = Fin 475\<rparr>,
      \<lparr>origin = units ''San Diego, CA'', destination = units ''Los Angeles, CA'', distanceKm = Fin 195\<rparr>]"

text \<open>
  \<open>findDistance\<close> of the module: \<open>Array.prototype.find\<close> returns the first route
  the predicate accepts, or \<open>undefined\<close>.
\<close>

definition route_matches :: "unicode \<Rightarrow> jsstring \<Rightarrow> jsstring \<Rightarrow> route \<Rightarrow> bool" where
  "route_matches ucd a b r =
     (let ro = toLowerCase ucd (origin r); rd = toLowerCase ucd (destination r)
      in (ro = a \<and> rd = b) \<or> (ro = b \<and> rd = a))"

definition findDistance_find ::
  "unicode \<Rightarrow> route list \<Rightarrow> jsstring \<Rightarrow> jsstring \<Rightarrow> jsnum option" where
  "findDistance_find ucd routes cityA cityB =
     (let normalizedA = toLowerCase ucd (trim cityA);
          normalizedB = toLowerCase ucd (trim cityB)
      in case find (route_matches ucd normalizedA normalizedB) routes of
           Some r \<Rightarrow> Some (distanceKm r)
         | None \<Rightarrow> None)"

definition RoutesDB_module_findDistance ::
  "unicode \<Rightarrow> jsstring \<Rightarrow> jsstring \<Rightarrow> jsnum option" where
  "RoutesDB_module_findDistance ucd cityA cityB =
     findDistance_find ucd routes_module cityA cityB"

text \<open>
  \<open>findDistance\<close> of the object \<open>var RoutesDB = { ... }\<close>: an empty argument gives
  \<open>null\<close> at once, then a \<open>for\<close> loop over the indices returns at the first match.
\<close>

function findDistance_loop ::
  "unicode \<Rightarrow> route list \<Rightarrow> jsstring \<Rightarrow> jsstring \<Rightarrow> nat \<Rightarrow> jsnum option" where
  "findDistance_loop ucd routes a b i =
     (if i < length routes
      then (let r = routes ! i
            in if route_matches ucd a b r then Some (distanceKm r)
               else findDistance_loop ucd routes a b (i + 1))
      else None)"
  by pat_completeness auto
termination
  by (relation "measure (\<lambda>(ucd, routes, a, b, i). length routes - i)") auto

declare findDistance_loop.simps [simp del]

definition findDistance_for ::
  "unicode \<Rightarrow> route list \<Rightarrow> jsstring \<Rightarrow> jsstring \<Rightarrow> jsnum option" where
  "findDistance_for ucd routes origin_in destination_in =
     (if origin_in = [] \<or> destination_in = [] then None
      else
        let a = toLowerCase ucd (trim origin_in);
            b = toLowerCase ucd (trim destination_in)
        in findDistance_loop ucd routes a b 0)"

definition RoutesDB_object_findDistance ::
  "unicode \<Rightarrow> jsstring \<Rightarrow> jsstring \<Rightarrow> jsnum option" where
  "RoutesDB_object_findDistance ucd origin_in destination_in =
     findDistance_for ucd routes_object origin_in destination_in"

section \<open>The emission formula, in the specification's words and in binary64\<close>

definition round_half_away :: "rat \<Rightarrow> int" where
  "round_half_away r = (if r < 0 then - \<lfloor>- r + 1 / 2\<rfloor> else \<lfloor>r + 1 / 2\<rfloor>)"

definition round_to_decimals :: "nat \<Rightarrow> rat \<Rightarrow> rat" where
  "round_to_decimals k x = of_int (round_half_away (x * 10 ^ k)) / 10 ^ k"

text \<open>
  The specification's words: the product of the distance and the factor of the mode,
  over the decimal factors 0, 0.12, 0.089 and 0.96, rounded to two decimal places, half
  away from zero. The result is the Number of that decimal; a mode outside the table has
  none.
\<close>

definition spec_factors :: "(string \<times> rat) list" where
  "spec_factors =
     [(''bicycle'', 0), (''car'', 12 / 100), (''bus'', 89 / 1000), (''truck'', 96 / 100)]"

definition spec_emission :: "rat \<Rightarrow> string \<Rightarrow> jsnum option" where
  "spec_emission d m =
     (case map_of spec_factors m of
        None \<Rightarrow> None
      | Some f \<Rightarrow> Some (js_lit (round_to_decimals 2 (d * f))))"

text \<open>
  The same rounding applied to the product the code computes: the binary64 product of
  the distance and the binary64 factor of the mode.
\<close>

definition factor_of :: "string \<Rightarrow> jsnum" where
  "factor_of m = ToNumber (get_prop EMISSION_FACTORS m)"

definition rounded_binary64_product :: "jsnum \<Rightarrow> string \<Rightarrow> jsnum" where
  "rounded_binary64_product d m =
     (case js_mul d (factor_of m) of
        Fin p \<Rightarrow> js_lit (round_to_decimals 2 p)
      | other \<Rightarrow> other)"

text \<open>The position of a mode in the enumeration \<open>bicycle, car, bus, truck\<close>.\<close>

definition mode_index :: "string \<Rightarrow> nat" where
  "mode_index m = length (takeWhile (\<lambda>k. k \<noteq> m) (map fst EMISSION_FACTORS))"

text \<open>
  Ascending order of emission, entries of equal emission in enumeration order.
\<close>

definition emission_then_index :: "('a mode_result_scheme) \<Rightarrow> ('a mode_result_scheme) \<Rightarrow> bool" where
  "emission_then_index a b =
     (js_lt (emission a) (emission b)
      \<or> (emission a = emission b \<and> mode_index (mode a) < mode_index (mode b)))"

text \<open>
  Two code units that are the same ASCII letter in either case, or equal, and two strings
  that are so unit by unit; a string of white space only.
\<close>

definition same_ascii_letter :: "nat \<Rightarrow> nat \<Rightarrow> bool" where
  "same_ascii_letter c c' =
     (c = c' \<or> (65 \<le> c \<and> c \<le> 90 \<and> c' = c + 32) \<or> (65 \<le> c' \<and> c' \<le> 90 \<and> c = c' + 32))"

definition case_variant :: "jsstring \<Rightarrow> jsstring \<Rightarrow> bool" where
  "case_variant s t = list_all2 same_ascii_letter s t"

definition all_ws :: "jsstring \<Rightarrow> bool" where
  "all_ws s = list_all is_ws s"

text \<open>
  A value a computation of the calculator can produce: not NaN, and if finite a multiple
  of the smallest positive binary64 value.
\<close>

definition on_grid :: "rat \<Rightarrow> bool" where
  "on_grid y = (of_int \<lfloor>y / denorm_min\<rfloor> = y / denorm_min)"

fun ordinary :: "jsnum \<Rightarrow> bool" where
  "ordinary (Fin y) = on_grid y"
| "ordinary NaN = False"
| "ordinary x = True"

text \<open>
  What the specification asks of a comparison: four entries, one for each mode, in
  ascending order of emission, ties in enumeration order, and no emission for the bicycle.
\<close>

definition comparison_ok :: "('a mode_result_scheme) list \<Rightarrow> bool" where
  "comparison_ok rs =
     (length rs = 4
      \<and> set (map mode rs) = {''bicycle'', ''car'', ''bus'', ''truck''}
      \<and> sorted_wrt (\<lambda>a b. js_le (emission a) (emission b)) rs
      \<and> sorted_wrt emission_then_index rs
      \<and> (\<forall>r\<in>set rs. mode r = ''bicycle'' \<longrightarrow> emission r = Fin 0))"

text \<open>The car is its own baseline: its entry is there and reads 100 percent.\<close>

definition car_is_baseline :: "('a mode_result_scheme) list \<Rightarrow> bool" where
  "car_is_baseline rs =
     ((\<exists>r\<in>set rs. mode r = ''car'')
      \<and> (\<forall>r\<in>set rs. mode r = ''car'' \<longrightarrow> percentageVsCar r = Fin 100))"

text \<open>A finite distance near the top of the binary64 range, \<open>2^1023\<close> km.\<close>

definition big_distance :: rat where
  "big_distance = 2 ^ 1023"

text \<open>
  The result of a lookup is that of the first matching route in table order:
  \<open>null\<close> when no route matches, else the distance of the first route that does.
\<close>

definition is_first_match ::
  "unicode \<Rightarrow> route list \<Rightarrow> jsstring \<Rightarrow> jsstring \<Rightarrow> jsnum option \<Rightarrow> bool" where
  "is_first_match ucd routes a b res =
     (case res of
        None \<Rightarrow> \<forall>r\<in>set routes. \<not> route_matches ucd a b r
      | Some d \<Rightarrow>
          \<exists>i<length routes. route_matches ucd a b (routes ! i)
            \<and> (\<forall>j<i. \<not> route_matches ucd a b (routes ! j))
            \<and> d = distanceKm (routes ! i))"

definition positive_or_null :: "jsnum option \<Rightarrow> bool" where
  "positive_or_null res = (case res of None \<Rightarrow> True | Some d \<Rightarrow> js_gt d (Fin 0))"

text \<open>
  A name that keeps at least one unit when put in lower case, as every name that starts
  with an ASCII unit does.
\<close>

definition names_nonempty :: "unicode \<Rightarrow> route \<Rightarrow> bool" where
  "names_nonempty ucd r =
     (toLowerCase ucd (origin r) \<noteq> [] \<and> toLowerCase ucd (destination r) \<noteq> [])"

definition ascii_head :: "jsstring \<Rightarrow> bool" where
  "ascii_head s = (case s of [] \<Rightarrow> False | c # _ \<Rightarrow> c < 128)"

section \<open>Properties of the rounding\<close>

lemma expo_bounds:
  assumes "0 < x"
  shows "2 powi expo x \<le> x" and "x < 2 powi (expo x + 1)"
proof -
  obtain p q where pq: "quotient_of x = (p, q)" by (cases "quotient_of x")
  have q: "0 < q" using quotient_of_denom_pos[OF pq] .
  have xe: "x = of_int p / of_int q" using quotient_of_div[OF pq] .
  have p: "0 < p" using assms q xe by (simp add: zero_less_divide_iff)
  define k where "k = bitlen p - bitlen q"
  have bp: "2 ^ nat (bitlen p - 1) \<le> p" "p < 2 ^ nat (bitlen p)" using bitlen_bounds[OF p] by auto
  have bq: "2 ^ nat (bitlen q - 1) \<le> q" "q < 2 ^ nat (bitlen q)" using bitlen_bounds[OF q] by auto
  have lp: "1 \<le> bitlen p" using p bitlen_eq_zero_iff[of p] bitlen_nonneg[of p] by linarith
  have lq: "1 \<le> bitlen q" using q bitlen_eq_zero_iff[of q] bitlen_nonneg[of q] by linarith
  have P1: "(2::rat) powi (bitlen p - 1) \<le> of_int p"
  proof -
    have "(of_int (2 ^ nat (bitlen p - 1)) :: rat) \<le> of_int p" using bp(1) by (simp only: of_int_le_iff)
    then show ?thesis using lp by (simp add: power_int_def)
  qed
  have P2: "of_int p < (2::rat) powi (bitlen p)"
  proof -
    have "(of_int p :: rat) < of_int (2 ^ nat (bitlen p))" using bp(2) by (simp only: of_int_less_iff)
    then show ?thesis using lp by (simp add: power_int_def)
  qed
  have Q1: "(2::rat) powi (bitlen q - 1) \<le> of_int q"
  proof -
    have "(of_int (2 ^ nat (bitlen q - 1)) :: rat) \<le> of_int q" using bq(1) by (simp only: of_int_le_iff)
    then show ?thesis using lq by (simp add: power_int_def)
  qed
  have Q2: "of_int q < (2::rat) powi (bitlen q)"
  proof -
    have "(of_int q :: rat) < of_int (2 ^ nat (bitlen q))" using bq(2) by (simp only: of_int_less_iff)
    then show ?thesis using lq by (simp add: power_int_def)
  qed
  have qpos: "(0::rat) < of_int q" using q by simp
  have up: "x < 2 powi (k + 1)"
  proof -
    have "of_int p < (2::rat) powi (k + 1) * 2 powi (bitlen q - 1)"
      using P2 by (simp add: k_def flip: power_int_add)
    also have "\<dots> \<le> 2 powi (k + 1) * of_int q"
      using Q1 by (intro mult_left_mono) auto
    finally show ?thesis using qpos by (simp add: xe pos_divide_less_eq)
  qed
  have lo: "2 powi (k - 1) < x"
  proof -
    have "(2::rat) powi (k - 1) * of_int q < 2 powi (k - 1) * 2 powi (bitlen q)"
      using Q2 by (intro mult_strict_left_mono) auto
    also have "\<dots> = 2 powi (bitlen p - 1)" by (simp add: k_def flip: power_int_add)
    also have "\<dots> \<le> of_int p" using P1 .
    finally show ?thesis using qpos by (simp add: xe pos_less_divide_eq)
  qed
  have e: "expo x = (if 2 powi k \<le> x then k else k - 1)"
    by (simp add: expo_def pq k_def Let_def)
  show "2 powi expo x \<le> x" using lo by (simp add: e)
  show "x < 2 powi (expo x + 1)" using up by (auto simp add: e not_le)
qed

lemma pow2_mono: "a \<le> b \<Longrightarrow> (2::rat) powi a \<le> 2 powi b"
  by (rule power_int_increasing) auto

lemma pow2_strict: "(2::rat) powi a < 2 powi b \<Longrightarrow> a < b"
  by (meson linorder_not_less pow2_mono)

lemma expo_unique:
  assumes "2 powi e \<le> x" "x < 2 powi (e + 1)"
  shows "expo x = e"
proof -
  have x: "0 < x" using assms(1) by (meson less_le_trans zero_less_numeral zero_less_power_int)
  have "2 powi e < (2::rat) powi (expo x + 1)" using assms(1) expo_bounds(2)[OF x] by linarith
  then have a: "e < expo x + 1" by (rule pow2_strict)
  have "2 powi expo x < (2::rat) powi (e + 1)" using assms(2) expo_bounds(1)[OF x] by linarith
  then have b: "expo x < e + 1" by (rule pow2_strict)
  show ?thesis using a b by linarith
qed

lemma expo_unit: "1 \<le> x \<Longrightarrow> x < 2 \<Longrightarrow> expo x = 0"
  by (rule expo_unique) auto

lemma expo_double: "2 \<le> x \<Longrightarrow> expo x = expo (x / 2) + 1"
proof (rule expo_unique)
  assume x: "2 \<le> x"
  then have h: "0 < x / 2" by simp
  show "2 powi (expo (x / 2) + 1) \<le> x"
    using expo_bounds(1)[OF h] by (simp add: power_int_add)
  show "x < 2 powi (expo (x / 2) + 1 + 1)"
    using expo_bounds(2)[OF h] by (simp add: power_int_add)
qed

lemma expo_half: "0 < x \<Longrightarrow> x < 1 \<Longrightarrow> expo x = expo (2 * x) - 1"
proof (rule expo_unique)
  assume x: "0 < x"
  then have h: "0 < 2 * x" by simp
  show "2 powi (expo (2 * x) - 1) \<le> x"
    using expo_bounds(1)[OF h] by (simp add: power_int_diff)
  show "x < 2 powi (expo (2 * x) - 1 + 1)"
    using expo_bounds(2)[OF h] by (simp add: power_int_add)
qed

lemma floor_rat_numeral: "\<lfloor>numeral a / numeral b :: rat\<rfloor> = numeral a div numeral b"
  using floor_divide_of_int_eq[of "numeral a" "numeral b", where ?'a = rat] by simp

lemma floor_rat_neg_numeral: "\<lfloor>- (numeral a / numeral b) :: rat\<rfloor> = - numeral a div numeral b"
  using floor_divide_of_int_eq[of "- numeral a" "numeral b", where ?'a = rat] by simp




lemma floor_rat_one_div: "\<lfloor>1 / numeral b :: rat\<rfloor> = 1 div numeral b"
  using floor_divide_of_int_eq[of 1 "numeral b", where ?'a = rat] by simp

lemma powi_neg_numeral: "(x::rat) powi (- numeral n) = 1 / x ^ numeral n"
  by (simp add: power_int_minus_divide)

text \<open>The rules that evaluate the arithmetic on numerals.\<close>

lemmas js_eval = fl_def quantum_def js_lit_def round_half_even_def Let_def expo_unit expo_double
  expo_half powi_neg_numeral toFixed_n_def floor_rat_numeral floor_rat_neg_numeral
  floor_rat_one_div

lemma rhe_of_int: "round_half_even (of_int n) = n"
  by (simp add: round_half_even_def)

lemma rhe_le: "r \<le> of_int H \<Longrightarrow> round_half_even r \<le> H"
  unfolding round_half_even_def Let_def
  by (auto simp: floor_le_iff)

lemma rhe_ge: "of_int H \<le> r \<Longrightarrow> H \<le> round_half_even r"
  unfolding round_half_even_def Let_def
  by (auto simp: le_floor_iff) linarith+

lemma quantum_pos: "0 < quantum x"
  by (simp add: quantum_def)

lemma fl_FinD:
  assumes "fl x = Fin y"
  shows "y = of_int (round_half_even (x / quantum x)) * quantum x"
proof (cases "x = 0")
  case True
  then show ?thesis using assms rhe_of_int[of 0] by (simp add: fl_def)
next
  case False
  then show ?thesis using assms by (simp add: fl_def Let_def split: if_splits)
qed

lemma fl_nonneg: "0 \<le> x \<Longrightarrow> js_le (Fin 0) (fl x)"
proof -
  assume x: "0 \<le> x"
  have "0 \<le> x / quantum x" using x quantum_pos[of x] by simp
  then have "0 \<le> round_half_even (x / quantum x)" using rhe_ge[of 0] by simp
  then have "(0::rat) \<le> of_int (round_half_even (x / quantum x)) * quantum x"
    using quantum_pos[of x] by simp
  then show ?thesis using x by (simp add: fl_def Let_def js_le_def)
qed

lemma fl_nonpos: "x \<le> 0 \<Longrightarrow> js_le (fl x) (Fin 0)"
proof -
  assume x: "x \<le> 0"
  have "x / quantum x \<le> 0" using x quantum_pos[of x] by (simp add: divide_le_0_iff)
  then have "round_half_even (x / quantum x) \<le> 0" using rhe_le[of _ 0] by simp
  then have "of_int (round_half_even (x / quantum x)) * quantum x \<le> (0::rat)"
    using quantum_pos[of x] by (simp add: mult_le_0_iff)
  then show ?thesis using x by (simp add: fl_def Let_def js_le_def)
qed

lemma denorm_min_pos: "0 < denorm_min"
  unfolding denorm_min_def by (rule zero_less_power_int) simp

lemma pow2_split: "a \<le> e \<Longrightarrow> (2::rat) powi e = 2 ^ nat (e - a) * 2 powi a"
proof -
  assume "a \<le> e"
  then have n: "(2::rat) powi (e - a) = 2 ^ nat (e - a)" by (simp add: power_int_def)
  have "(2::rat) powi e = 2 powi ((e - a) + a)" by simp
  also have "\<dots> = 2 powi (e - a) * 2 powi a" by (rule power_int_add) simp
  finally show ?thesis using n by simp
qed

lemma quantum_grid: "\<exists>n::nat. quantum x = 2 ^ n * denorm_min"
proof -
  have "(- 1074::int) \<le> max (expo \<bar>x\<bar>) (- 1022) - 52" by simp
  then show ?thesis unfolding quantum_def denorm_min_def by (metis pow2_split)
qed

lemma fl_grid:
  assumes "fl x = Fin y"
  shows "\<exists>k::int. y = of_int k * denorm_min"
proof -
  obtain n :: nat where n: "quantum x = 2 ^ n * denorm_min" using quantum_grid by blast
  have "y = of_int (round_half_even (x / quantum x)) * quantum x" using fl_FinD[OF assms] .
  also have "\<dots> = of_int (round_half_even (x / quantum x) * 2 ^ n) * denorm_min"
    by (simp add: n)
  finally show ?thesis by blast
qed

lemma quantum_le:
  assumes "0 < x" "x = of_int k * denorm_min"
  shows "quantum x \<le> x"
proof (cases "- 1022 \<le> expo x")
  case True
  have "quantum x = 2 powi (expo x - 52)" using True assms(1) by (simp add: quantum_def max_def)
  also have "\<dots> \<le> 2 powi expo x" by (rule pow2_mono) simp
  also have "\<dots> \<le> x" using expo_bounds(1)[OF assms(1)] .
  finally show ?thesis .
next
  case False
  then have q: "quantum x = denorm_min"
    using assms(1) unfolding quantum_def denorm_min_def by (simp add: max_def)
  have "0 < k" using assms denorm_min_pos by (simp add: zero_less_mult_iff)
  then have "(1::rat) \<le> of_int k" by simp
  then have "1 * denorm_min \<le> of_int k * denorm_min"
    using denorm_min_pos by (intro mult_right_mono) simp_all
  then show ?thesis using q assms(2) by simp
qed

lemma fl_pos_of_grid:
  assumes "0 < x" "x = of_int k * denorm_min"
  shows "js_lt (Fin 0) (fl x)"
proof -
  have "1 \<le> x / quantum x" using quantum_le[OF assms] quantum_pos[of x] by (simp add: le_divide_eq)
  then have "1 \<le> round_half_even (x / quantum x)" using rhe_ge[of 1] by simp
  then have "(0::rat) < of_int (round_half_even (x / quantum x)) * quantum x"
    using quantum_pos[of x] by (simp add: zero_less_mult_iff)
  then show ?thesis using assms(1) by (simp add: fl_def Let_def)
qed

lemma toFixed_n_eq: "toFixed_n f x = \<lfloor>x * 10 ^ f + 1 / 2\<rfloor>"
proof -
  define T :: rat where "T = 10 ^ f"
  define X where "X = x * T"
  have T: "0 < T" by (simp add: T_def)
  have x: "x = X / T" using T by (simp add: X_def)
  have "(of_int (\<lfloor>X\<rfloor> + 1) / T - x \<le> x - of_int \<lfloor>X\<rfloor> / T)
      = ((of_int (\<lfloor>X\<rfloor> + 1) - X) / T \<le> (X - of_int \<lfloor>X\<rfloor>) / T)"
    by (simp add: x diff_divide_distrib)
  also have "\<dots> = (of_int (\<lfloor>X\<rfloor> + 1) - X \<le> X - of_int \<lfloor>X\<rfloor>)"
    using T by (simp add: divide_le_cancel)
  also have "\<dots> = (of_int \<lfloor>X\<rfloor> + 1 / 2 \<le> X)" by auto
  finally have c: "(of_int (\<lfloor>X\<rfloor> + 1) / T - x \<le> x - of_int \<lfloor>X\<rfloor> / T) = (of_int \<lfloor>X\<rfloor> + 1 / 2 \<le> X)" .
  have d: "toFixed_n f x = (if of_int \<lfloor>X\<rfloor> + 1 / 2 \<le> X then \<lfloor>X\<rfloor> + 1 else \<lfloor>X\<rfloor>)"
    unfolding toFixed_n_def Let_def T_def[symmetric] X_def[symmetric] c ..
  show ?thesis
  proof (cases "of_int \<lfloor>X\<rfloor> + 1 / 2 \<le> X")
    case True
    then have "\<lfloor>X + 1 / 2\<rfloor> = \<lfloor>X\<rfloor> + 1" by (intro floor_unique) linarith+
    then show ?thesis using True d by (simp add: X_def T_def)
  next
    case False
    then have "\<lfloor>X + 1 / 2\<rfloor> = \<lfloor>X\<rfloor>" by (intro floor_unique) linarith+
    then show ?thesis using False d by (simp add: X_def T_def)
  qed
qed

section \<open>Properties of the comparisons and of the sort\<close>

lemma on_grid_iff: "on_grid y \<longleftrightarrow> (\<exists>k::int. y = of_int k * denorm_min)"
proof
  assume "on_grid y"
  then have a: "of_int \<lfloor>y / denorm_min\<rfloor> = y / denorm_min" unfolding on_grid_def .
  have "y / denorm_min * denorm_min = y" using denorm_min_pos by simp
  then have "y = of_int \<lfloor>y / denorm_min\<rfloor> * denorm_min" by (simp only: a)
  then show "\<exists>k::int. y = of_int k * denorm_min" ..
next
  assume "\<exists>k::int. y = of_int k * denorm_min"
  then obtain k :: int where "y = of_int k * denorm_min" ..
  then have "y / denorm_min = of_int k" using denorm_min_pos by simp
  then show "on_grid y" unfolding on_grid_def by simp
qed

lemma fl_not_NaN [simp]: "fl x \<noteq> NaN"
  by (simp add: fl_def Let_def)

lemma fl_ordinary [simp]: "ordinary (fl x)"
proof (cases "fl x")
  case (Fin y)
  then show ?thesis using fl_grid[OF Fin] by (simp add: on_grid_iff)
qed simp_all

lemma ordinary_zero [simp]: "ordinary (Fin 0)"
  using fl_ordinary[of 0] by (simp add: fl_def)

lemma on_grid_diff: "on_grid a \<Longrightarrow> on_grid b \<Longrightarrow> on_grid (a - b)"
proof -
  assume "on_grid a" "on_grid b"
  then obtain k l :: int where "a = of_int k * denorm_min" "b = of_int l * denorm_min"
    unfolding on_grid_iff by blast
  then have "a - b = of_int (k - l) * denorm_min" by (simp add: algebra_simps)
  then show ?thesis unfolding on_grid_iff by blast
qed

lemma fl_gt_zero_iff:
  assumes "on_grid x"
  shows "js_lt (Fin 0) (fl x) \<longleftrightarrow> 0 < x"
proof
  assume "0 < x"
  then show "js_lt (Fin 0) (fl x)" using assms fl_pos_of_grid unfolding on_grid_iff by blast
next
  assume l: "js_lt (Fin 0) (fl x)"
  show "0 < x"
  proof (rule ccontr)
    assume "\<not> 0 < x"
    then have "js_le (fl x) (Fin 0)" using fl_nonpos[of x] by simp
    then show False using l by (simp add: js_le_def)
  qed
qed

lemma sub_gt_zero_iff:
  assumes "ordinary a" "ordinary b"
  shows "js_gt (js_sub a b) (Fin 0) = js_lt b a"
proof (cases a)
  case (Fin x)
  show ?thesis
  proof (cases b)
    case (Fin y)
    have "on_grid (x - y)" using assms \<open>a = Fin x\<close> Fin on_grid_diff by simp
    then show ?thesis using fl_gt_zero_iff[of "x - y"] \<open>a = Fin x\<close> Fin
      by (simp add: js_gt_def js_sub_def)
  qed (use assms Fin in \<open>simp_all add: js_gt_def js_sub_def\<close>)
next
  case PInf
  then show ?thesis using assms by (cases b) (simp_all add: js_gt_def js_sub_def)
next
  case NInf
  then show ?thesis using assms by (cases b) (simp_all add: js_gt_def js_sub_def)
next
  case NaN
  then show ?thesis using assms by simp
qed

lemma js_lt_trans: "js_lt a b \<Longrightarrow> js_lt b c \<Longrightarrow> js_lt a c"
  by (cases a; cases b; cases c) simp_all

lemma js_lt_irrefl [simp]: "\<not> js_lt a a"
  by (cases a) simp_all

lemma js_lt_total: "a \<noteq> NaN \<Longrightarrow> b \<noteq> NaN \<Longrightarrow> js_lt a b \<or> a = b \<or> js_lt b a"
  by (cases a; cases b) auto

lemma ordinary_not_NaN: "ordinary a \<Longrightarrow> a \<noteq> NaN"
  by (cases a) simp_all

lemma set_insort_cmp [simp]: "set (insort_cmp cmp x ys) = insert x (set ys)"
  by (induction ys) auto

lemma set_js_sort [simp]: "set (js_sort cmp xs) = set xs"
  by (induction xs) (simp_all add: js_sort_def)

lemma length_insort_cmp [simp]: "length (insort_cmp cmp x ys) = Suc (length ys)"
  by (induction ys) auto

lemma length_js_sort [simp]: "length (js_sort cmp xs) = length xs"
  by (induction xs) (simp_all add: js_sort_def)

lemma insort_emission_sorted:
  fixes x :: "'a mode_result_scheme"
  assumes "\<forall>y\<in>set ys. ordinary (emission y)" "ordinary (emission x)"
    and "sorted_wrt emission_then_index ys"
    and "\<forall>y\<in>set ys. mode_index (mode x) < mode_index (mode y)"
  shows "sorted_wrt emission_then_index (insort_cmp (\<lambda>a b. js_sub (emission a) (emission b)) x ys)"
  using assms
proof (induction ys)
  case Nil
  then show ?case by simp
next
  case (Cons y ys)
  have gt: "js_gt (js_sub (emission x) (emission y)) (Fin 0) = js_lt (emission y) (emission x)"
    using Cons.prems by (intro sub_gt_zero_iff) simp_all
  show ?case
  proof (cases "js_lt (emission y) (emission x)")
    case True
    have "sorted_wrt emission_then_index (insort_cmp (\<lambda>a b. js_sub (emission a) (emission b)) x ys)"
      using Cons by simp
    moreover have "emission_then_index y x" using True by (simp add: emission_then_index_def)
    moreover have "\<forall>z\<in>set ys. emission_then_index y z" using Cons.prems(3) by simp
    ultimately show ?thesis using True gt by simp
  next
    case False
    have xy: "js_lt (emission x) (emission y) \<or> emission x = emission y"
      using False js_lt_total[of "emission x" "emission y"] Cons.prems(1,2) ordinary_not_NaN by auto
    have "emission_then_index x z" if "z \<in> set (y # ys)" for z
    proof -
      have i: "mode_index (mode x) < mode_index (mode z)" using that Cons.prems(4) by blast
      have "js_lt (emission y) (emission z) \<or> emission y = emission z"
        using that Cons.prems(3) by (auto simp: emission_then_index_def)
      then have "js_lt (emission x) (emission z) \<or> emission x = emission z"
        using xy js_lt_trans by metis
      then show ?thesis using i by (auto simp: emission_then_index_def)
    qed
    then show ?thesis using False gt Cons.prems(3) by simp
  qed
qed

lemma js_sort_emission_sorted:
  fixes xs :: "'a mode_result_scheme list"
  assumes "\<forall>y\<in>set xs. ordinary (emission y)"
    and "sorted_wrt (\<lambda>a b. mode_index (mode a) < mode_index (mode b)) xs"
  shows "sorted_wrt emission_then_index (js_sort (\<lambda>a b. js_sub (emission a) (emission b)) xs)"
  using assms
proof (induction xs)
  case Nil
  then show ?case by (simp add: js_sort_def)
next
  case (Cons x xs)
  have "sorted_wrt emission_then_index (js_sort (\<lambda>a b. js_sub (emission a) (emission b)) xs)"
    using Cons by simp
  then have "sorted_wrt emission_then_index
      (insort_cmp (\<lambda>a b. js_sub (emission a) (emission b)) x (js_sort (\<lambda>a b. js_sub (emission a) (emission b)) xs))"
    using Cons.prems by (intro insort_emission_sorted) simp_all
  then show ?case by (simp add: js_sort_def)
qed

lemma emission_then_index_le:
  "ordinary (emission a) \<Longrightarrow> emission_then_index a b \<Longrightarrow> js_le (emission a) (emission b)"
  by (cases "emission a"; cases "emission b") (auto simp: emission_then_index_def js_le_def)

section \<open>The emissions of the four modes\<close>

lemma factor_of_modes:
  "factor_of ''bicycle'' = Fin 0"
  "factor_of ''car'' = Fin (1080863910568919 / 9007199254740992)"
  "factor_of ''bus'' = Fin (3206562934687793 / 36028797018963968)"
  "factor_of ''truck'' = Fin (1080863910568919 / 1125899906842624)"
  by (simp_all add: factor_of_def get_prop_def EMISSION_FACTORS_def js_eval)

lemma get_prop_modes:
  "m \<in> {''bicycle'', ''car'', ''bus'', ''truck''} \<Longrightarrow> get_prop EMISSION_FACTORS m \<noteq> Undefined"
  by (auto simp: get_prop_def EMISSION_FACTORS_def)

lemma hasOwnProperty_modes:
  "hasOwnProperty EMISSION_FACTORS m \<longleftrightarrow> m \<in> {''bicycle'', ''car'', ''bus'', ''truck''}"
  by (auto simp: hasOwnProperty_def EMISSION_FACTORS_def)

lemma factor_of_Fin:
  assumes "m \<in> {''bicycle'', ''car'', ''bus'', ''truck''}"
  shows "\<exists>c. factor_of m = Fin c \<and> 0 \<le> c"
proof -
  have h: "\<exists>c. Fin a = Fin c \<and> 0 \<le> c" if "0 \<le> a" for a :: rat
    using that by blast
  from assms have "m = ''bicycle'' \<or> m = ''car'' \<or> m = ''bus'' \<or> m = ''truck''" by simp
  then show ?thesis
    by (elim disjE) (simp_all only: factor_of_modes, (rule h, simp)+)
qed

lemma Calculator_emission_pos:
  assumes "0 < d" "m \<in> {''bicycle'', ''car'', ''bus'', ''truck''}"
  shows "Calculator_calculateEmission (Fin d) m = Number (toFixed 2 (js_mul (Fin d) (factor_of m)))"
  using assms get_prop_modes[OF assms(2)]
  by (simp add: Calculator_calculateEmission_def Let_def js_le_def factor_of_def)

lemma calculator_emission_pos:
  assumes "0 < d" "m \<in> {''bicycle'', ''car'', ''bus'', ''truck''}"
  shows "calculator_calculateEmission (Fin d) m = Inr (round2 (js_mul (Fin d) (factor_of m)))"
  using assms hasOwnProperty_modes[of m]
  by (simp add: calculator_calculateEmission_def Let_def js_le_def factor_of_def)

lemma Number_toFixed_ordinary: "x \<noteq> NaN \<Longrightarrow> ordinary (Number (toFixed f x))"
  by (cases x) simp_all

lemma round2_ordinary: "x \<noteq> NaN \<Longrightarrow> ordinary (round2 x)"
proof (cases x)
  case (Fin p)
  then show ?thesis
    by (cases "fl (p * 100)") (simp_all add: round2_def inf_of_sign_def)
qed (simp_all add: round2_def inf_of_sign_def)

lemma mul_Fin_not_NaN: "js_mul (Fin a) (Fin b) \<noteq> NaN"
  by simp

lemma Number_toFixed_zero: "Number (toFixed 2 (Fin 0)) = Fin 0"
  by (simp add: toFixed_n_eq fl_def floor_rat_one_div)

lemma round2_zero: "round2 (Fin 0) = Fin 0"
  by (simp add: round2_def fl_def floor_rat_one_div)

lemma mode_index_modes:
  "mode_index ''bicycle'' = 0" "mode_index ''car'' = 1" "mode_index ''bus'' = 2" "mode_index ''truck'' = 3"
  by (simp_all add: mode_index_def EMISSION_FACTORS_def)

lemma sorted_emission_le:
  fixes rs :: "'a mode_result_scheme list"
  assumes "sorted_wrt emission_then_index rs" "\<forall>r\<in>set rs. ordinary (emission r)"
  shows "sorted_wrt (\<lambda>a b. js_le (emission a) (emission b)) rs"
  using assms
  by (induction rs) (auto intro: emission_then_index_le)

lemma Calculator_allModes_ok:
  assumes "0 < d"
  shows "comparison_ok (Calculator_calculateAllModes (Fin d))"
proof -
  define car where "car = Calculator_calculateEmission (Fin d) ''car''"
  define rs where "rs = map (Calculator_mode_entry (Fin d) car) [''bicycle'', ''car'', ''bus'', ''truck'']"
  have res: "Calculator_calculateAllModes (Fin d) = js_sort (\<lambda>a b. js_sub (emission a) (emission b)) rs"
    by (simp add: Calculator_calculateAllModes_def Let_def rs_def car_def EMISSION_FACTORS_def)
  have em: "emission (Calculator_mode_entry (Fin d) car m) = Calculator_calculateEmission (Fin d) m" for m
    by (simp add: Calculator_mode_entry_def Let_def)
  have md: "mode (Calculator_mode_entry (Fin d) car m) = m" for m
    by (simp add: Calculator_mode_entry_def Let_def)
  have ord: "ordinary (Calculator_calculateEmission (Fin d) m)"
    if m: "m \<in> {''bicycle'', ''car'', ''bus'', ''truck''}" for m
  proof -
    obtain c where "factor_of m = Fin c" using factor_of_Fin[OF m] by blast
    then show ?thesis using Calculator_emission_pos[OF assms m]
      by (simp add: Number_toFixed_ordinary)
  qed
  have ords: "\<forall>r\<in>set rs. ordinary (emission r)"
    using ord by (simp add: rs_def em)
  have idx: "sorted_wrt (\<lambda>a b. mode_index (mode a) < mode_index (mode b)) rs"
    by (simp add: rs_def md mode_index_modes)
  have s1: "sorted_wrt emission_then_index (Calculator_calculateAllModes (Fin d))"
    unfolding res using ords idx by (rule js_sort_emission_sorted)
  have s2: "sorted_wrt (\<lambda>a b. js_le (emission a) (emission b)) (Calculator_calculateAllModes (Fin d))"
    using s1 ords by (intro sorted_emission_le) (simp_all add: res)
  have bic: "Calculator_calculateEmission (Fin d) ''bicycle'' = Fin 0"
    using Calculator_emission_pos[OF assms, of "''bicycle''"]
    by (simp add: factor_of_modes fl_def Number_toFixed_zero del: toFixed.simps Number.simps)
  have b: "\<forall>r\<in>set rs. mode r = ''bicycle'' \<longrightarrow> emission r = Fin 0"
    using bic by (simp add: rs_def em md)
  have m: "set (map mode rs) = {''bicycle'', ''car'', ''bus'', ''truck''}"
    by (simp add: rs_def md)
  have "set (map mode (Calculator_calculateAllModes (Fin d))) = {''bicycle'', ''car'', ''bus'', ''truck''}"
    using m by (simp add: res)
  moreover have "length (Calculator_calculateAllModes (Fin d)) = 4" by (simp add: res rs_def)
  ultimately show ?thesis using s1 s2 b unfolding comparison_ok_def by (simp add: res)
qed

section \<open>The comparison of all modes\<close>

lemma fl_zero: "fl 0 = Fin 0"
  by (simp add: fl_def)

lemma TRANSPORT_MODES_modes:
  "map_of TRANSPORT_MODES ''bicycle'' = Some \<lparr>meta_label = ''Bicycle'', meta_icon = [128690], meta_color = ''#10b981''\<rparr>"
  "map_of TRANSPORT_MODES ''car'' = Some \<lparr>meta_label = ''Car'', meta_icon = [128663], meta_color = ''#3b82f6''\<rparr>"
  "map_of TRANSPORT_MODES ''bus'' = Some \<lparr>meta_label = ''Bus'', meta_icon = [128652], meta_color = ''#f59e0b''\<rparr>"
  "map_of TRANSPORT_MODES ''truck'' = Some \<lparr>meta_label = ''Truck'', meta_icon = [128666], meta_color = ''#ef4444''\<rparr>"
  by (simp_all add: TRANSPORT_MODES_def)

lemma allModes_each_pos:
  assumes "0 < d"
  shows "\<exists>rs. allModes_each (Fin d) car [''bicycle'', ''car'', ''bus'', ''truck''] = Inr rs
      \<and> map mode rs = [''bicycle'', ''car'', ''bus'', ''truck'']
      \<and> map emission rs = map (\<lambda>m. round2 (js_mul (Fin d) (factor_of m))) [''bicycle'', ''car'', ''bus'', ''truck'']
      \<and> map percentageVsCar rs = map (\<lambda>m. percentage_of (round2 (js_mul (Fin d) (factor_of m))) car) [''bicycle'', ''car'', ''bus'', ''truck'']"
  using assms by (simp add: calculator_emission_pos TRANSPORT_MODES_modes)

lemma calculator_allModes_pos:
  assumes "0 < d"
  shows "\<exists>rs. calculator_calculateAllModes (Fin d) = Inr (js_sort (\<lambda>a b. js_sub (emission a) (emission b)) rs)
      \<and> map mode rs = [''bicycle'', ''car'', ''bus'', ''truck'']
      \<and> map emission rs = map (\<lambda>m. round2 (js_mul (Fin d) (factor_of m))) [''bicycle'', ''car'', ''bus'', ''truck'']
      \<and> map percentageVsCar rs = map (\<lambda>m. percentage_of (round2 (js_mul (Fin d) (factor_of m)))
            (round2 (js_mul (Fin d) (factor_of ''car'')))) [''bicycle'', ''car'', ''bus'', ''truck'']"
proof -
  define car where "car = round2 (js_mul (Fin d) (factor_of ''car''))"
  from allModes_each_pos[OF assms, of car]
  obtain rs where rs: "allModes_each (Fin d) car [''bicycle'', ''car'', ''bus'', ''truck''] = Inr rs
      \<and> map mode rs = [''bicycle'', ''car'', ''bus'', ''truck'']
      \<and> map emission rs = map (\<lambda>m. round2 (js_mul (Fin d) (factor_of m))) [''bicycle'', ''car'', ''bus'', ''truck'']
      \<and> map percentageVsCar rs = map (\<lambda>m. percentage_of (round2 (js_mul (Fin d) (factor_of m))) car) [''bicycle'', ''car'', ''bus'', ''truck'']" ..
  have ks: "map fst EMISSION_FACTORS = [''bicycle'', ''car'', ''bus'', ''truck'']"
    by (simp add: EMISSION_FACTORS_def)
  have c: "calculator_calculateEmission (Fin d) ''car'' = Inr car"
    using assms by (simp add: calculator_emission_pos car_def)
  have "calculator_calculateAllModes (Fin d) = Inr (js_sort (\<lambda>a b. js_sub (emission a) (emission b)) rs)"
    unfolding calculator_calculateAllModes_def ks c using assms
    by (simp add: rs[THEN conjunct1] js_le_def del: allModes_each.simps)
  then show ?thesis using rs[THEN conjunct2] unfolding car_def by (intro exI[of _ rs] conjI) simp_all
qed

lemma calculator_allModes_ok:
  assumes "0 < d"
  shows "\<exists>rs. calculator_calculateAllModes (Fin d) = Inr rs \<and> comparison_ok rs"
proof -
  let ?ms = "[''bicycle'', ''car'', ''bus'', ''truck'']"
  from calculator_allModes_pos[OF assms]
  obtain rs where rs: "calculator_calculateAllModes (Fin d) = Inr (js_sort (\<lambda>a b. js_sub (emission a) (emission b)) rs)
      \<and> map mode rs = ?ms
      \<and> map emission rs = map (\<lambda>m. round2 (js_mul (Fin d) (factor_of m))) ?ms
      \<and> map percentageVsCar rs = map (\<lambda>m. percentage_of (round2 (js_mul (Fin d) (factor_of m)))
            (round2 (js_mul (Fin d) (factor_of ''car'')))) ?ms" ..
  have res: "calculator_calculateAllModes (Fin d) = Inr (js_sort (\<lambda>a b. js_sub (emission a) (emission b)) rs)"
    and md: "map mode rs = ?ms"
    and em: "map emission rs = map (\<lambda>m. round2 (js_mul (Fin d) (factor_of m))) ?ms"
    using rs by simp_all
  let ?out = "js_sort (\<lambda>a b. js_sub (emission a) (emission b)) rs"
  have "length (map mode rs) = 4" unfolding md by simp
  then have len: "length rs = 4" by simp
  have ord: "ordinary (round2 (js_mul (Fin d) (factor_of m)))"
    if m: "m \<in> {''bicycle'', ''car'', ''bus'', ''truck''}" for m
  proof -
    obtain c where "factor_of m = Fin c" using factor_of_Fin[OF m] by blast
    then show ?thesis by (simp add: round2_ordinary)
  qed
  have "\<forall>e\<in>set (map emission rs). ordinary e" unfolding em using ord by simp
  then have ords: "\<forall>r\<in>set rs. ordinary (emission r)" by simp
  have "sorted_wrt (<) (map mode_index (map mode rs))" unfolding md by (simp add: mode_index_modes)
  then have idx: "sorted_wrt (\<lambda>a b. mode_index (mode a) < mode_index (mode b)) rs"
    by (simp add: sorted_wrt_map)
  have s1: "sorted_wrt emission_then_index ?out"
    using ords idx by (rule js_sort_emission_sorted)
  have s2: "sorted_wrt (\<lambda>a b. js_le (emission a) (emission b)) ?out"
    using s1 ords by (intro sorted_emission_le) simp_all
  have "list_all2 (\<lambda>m e. m = ''bicycle'' \<longrightarrow> e = Fin 0) (map mode rs) (map emission rs)"
    unfolding md em by (simp add: factor_of_modes(1) fl_zero round2_zero)
  then have "list_all2 (\<lambda>r r'. mode r = ''bicycle'' \<longrightarrow> emission r' = Fin 0) rs rs"
    by (simp add: list_all2_map1 list_all2_map2)
  then have b: "\<forall>r\<in>set rs. mode r = ''bicycle'' \<longrightarrow> emission r = Fin 0"
    by (simp add: list_all2_same)
  have "set (map mode ?out) = set (map mode rs)" by simp
  then have m: "set (map mode ?out) = {''bicycle'', ''car'', ''bus'', ''truck''}"
    unfolding md by simp
  have "comparison_ok ?out"
    unfolding comparison_ok_def using s1 s2 b m len by simp
  then show ?thesis using res by simp
qed

section \<open>The car as its own baseline\<close>

lemma fl_one: "fl 1 = Fin 1"
  by (simp add: js_eval)

lemma fl_hundred: "fl 100 = Fin 100"
  by (simp add: js_eval)

lemma Number_toFixed_hundred: "Number (toFixed 2 (Fin 100)) = Fin 100"
  by (simp add: js_eval)

lemma self_ratio: "e \<noteq> 0 \<Longrightarrow> js_mul (js_div (Fin e) (Fin e)) (Fin 100) = Fin 100"
  by (simp add: fl_one fl_hundred)

lemma Calculator_car_baseline:
  assumes "Calculator_calculateEmission d ''car'' = Fin e" "0 < e"
  shows "car_is_baseline (Calculator_calculateAllModes d)"
proof -
  have ks: "map fst EMISSION_FACTORS = [''bicycle'', ''car'', ''bus'', ''truck'']"
    by (simp add: EMISSION_FACTORS_def)
  have s: "set (Calculator_calculateAllModes d)
      = Calculator_mode_entry d (Fin e) ` {''bicycle'', ''car'', ''bus'', ''truck''}"
    by (simp add: Calculator_calculateAllModes_def Let_def assms(1) ks)
  have md: "mode (Calculator_mode_entry d (Fin e) m) = m" for m
    by (simp add: Calculator_mode_entry_def Let_def)
  have "percentageVsCar (Calculator_mode_entry d (Fin e) ''car'') = Fin 100"
    using assms self_ratio[of e]
    by (simp add: Calculator_mode_entry_def Let_def js_gt_def Number_toFixed_hundred
        del: toFixed.simps Number.simps js_mul.simps js_div.simps)
  then show ?thesis unfolding car_is_baseline_def s by (auto simp: md)
qed

lemma allModes_each_entries:
  "allModes_each d car ms = Inr rs \<Longrightarrow>
     map mode rs = ms
     \<and> (\<forall>r\<in>set rs. calculator_calculateEmission d (mode r) = Inr (emission r)
            \<and> percentageVsCar r = percentage_of (emission r) car)"
proof (induction ms arbitrary: rs)
  case Nil
  then show ?case by simp
next
  case (Cons m ms)
  from Cons.prems obtain e meta rest where
    e: "calculator_calculateEmission d m = Inr e"
    and "map_of TRANSPORT_MODES m = Some meta"
    and rest: "allModes_each d car ms = Inr rest"
    and rs: "rs = \<lparr>mode = m, emission = e, percentageVsCar = percentage_of e car,
                   label = meta_label meta, icon = meta_icon meta, color = meta_color meta\<rparr> # rest"
    by (auto split: sum.splits option.splits)
  show ?case using Cons.IH[OF rest] e by (simp add: rs)
qed

lemma allModes_each_total:
  assumes "\<not> js_le d (Fin 0)"
  shows "\<exists>rs. allModes_each d car [''bicycle'', ''car'', ''bus'', ''truck''] = Inr rs"
  using assms
  by (simp add: calculator_calculateEmission_def hasOwnProperty_modes TRANSPORT_MODES_modes Let_def)

lemma calculator_car_baseline:
  assumes "calculator_calculateEmission d ''car'' = Inr (Fin e)" "0 < e"
  shows "\<exists>rs. calculator_calculateAllModes d = Inr rs \<and> car_is_baseline rs"
proof -
  have ks: "map fst EMISSION_FACTORS = [''bicycle'', ''car'', ''bus'', ''truck'']"
    by (simp add: EMISSION_FACTORS_def)
  have d: "\<not> js_le d (Fin 0)"
    using assms(1) by (auto simp: calculator_calculateEmission_def split: if_splits)
  from allModes_each_total[OF d, of "Fin e"]
  obtain rs where rs: "allModes_each d (Fin e) [''bicycle'', ''car'', ''bus'', ''truck''] = Inr rs" ..
  have res: "calculator_calculateAllModes d = Inr (js_sort (\<lambda>a b. js_sub (emission a) (emission b)) rs)"
    unfolding calculator_calculateAllModes_def ks assms(1) using d
    by (simp add: rs del: allModes_each.simps)
  have en: "map mode rs = [''bicycle'', ''car'', ''bus'', ''truck'']"
    "\<forall>r\<in>set rs. calculator_calculateEmission d (mode r) = Inr (emission r)
            \<and> percentageVsCar r = percentage_of (emission r) (Fin e)"
    using allModes_each_entries[OF rs] by simp_all
  have "''car'' \<in> set (map mode rs)" unfolding en(1) by simp
  then have ex: "\<exists>r\<in>set rs. mode r = ''car''" by auto
  have "percentageVsCar r = Fin 100" if r: "r \<in> set rs" "mode r = ''car''" for r
  proof -
    have "emission r = Fin e" using en(2) r assms(1) by auto
    moreover have "percentage_of (Fin e) (Fin e) = Fin 100"
      using assms(2) self_ratio[of e]
      by (simp add: percentage_of_def js_eq_def floor_rat_numeral del: js_mul.simps js_div.simps)
    ultimately show ?thesis using en(2) r by simp
  qed
  then have "car_is_baseline (js_sort (\<lambda>a b. js_sub (emission a) (emission b)) rs)"
    using ex unfolding car_is_baseline_def by simp
  then show ?thesis using res by simp
qed

section \<open>Rounding to cents\<close>

lemma expo_lt:
  assumes "0 < x" "x < 2 ^ n"
  shows "expo x < int n"
proof -
  have "2 powi expo x \<le> x" using expo_bounds(1)[OF assms(1)] .
  also have "x < 2 powi (int n)" using assms(2) by simp
  finally show ?thesis by (rule pow2_strict)
qed

lemma fl_half_bounds:
  assumes "0 < x" "x < 2 ^ 52" "fl x = Fin y"
  shows "of_int k + 1 / 2 \<le> x \<Longrightarrow> of_int k + 1 / 2 \<le> y"
    and "x \<le> of_int k + 1 / 2 \<Longrightarrow> y \<le> of_int k + 1 / 2"
proof -
  define e where "e = max (expo x) (- 1022)"
  define n where "n = nat (52 - e)"
  have "expo x < 52" using expo_lt[OF assms(1,2)] by simp
  then have e: "e \<le> 51" by (simp add: e_def)
  then have n: "1 \<le> n" "e - 52 = - int n" by (simp_all add: n_def)
  have q: "quantum x = 1 / 2 ^ n"
    using assms(1) n(2) by (simp add: quantum_def e_def[symmetric] power_int_minus_divide)
  have pw: "(2::rat) ^ n = 2 * 2 ^ (n - 1)" using n(1) by (cases n) simp_all
  define H where "H = (2 * k + 1) * 2 ^ (n - 1)"
  have hq: "(of_int k + 1 / 2) / quantum x = of_int H"
    by (simp add: q pw H_def algebra_simps)
  have y: "y = of_int (round_half_even (x / quantum x)) * quantum x" using fl_FinD[OF assms(3)] .
  have qp: "0 < quantum x" by (rule quantum_pos)
  have h: "of_int k + 1 / 2 = of_int H * quantum x" using hq qp by (simp add: field_simps)
  show "of_int k + 1 / 2 \<le> y" if "of_int k + 1 / 2 \<le> x"
  proof -
    have "of_int H \<le> x / quantum x" using that qp unfolding h by (simp add: le_divide_eq)
    then have "H \<le> round_half_even (x / quantum x)" by (rule rhe_ge)
    then have "(of_int H :: rat) \<le> of_int (round_half_even (x / quantum x))" by simp
    then have "of_int H * quantum x \<le> of_int (round_half_even (x / quantum x)) * quantum x"
      using qp by (intro mult_right_mono) simp_all
    then show ?thesis unfolding h y[symmetric] .
  qed
  show "y \<le> of_int k + 1 / 2" if "x \<le> of_int k + 1 / 2"
  proof -
    have "x / quantum x \<le> of_int H" using that qp unfolding h by (simp add: divide_le_eq)
    then have "round_half_even (x / quantum x) \<le> H" by (rule rhe_le)
    then have "(of_int (round_half_even (x / quantum x)) :: rat) \<le> of_int H" by simp
    then have "of_int (round_half_even (x / quantum x)) * quantum x \<le> of_int H * quantum x"
      using qp by (intro mult_right_mono) simp_all
    then show ?thesis unfolding h y[symmetric] .
  qed
qed

lemma round_after_fl:
  assumes "0 \<le> x" "x < 2 ^ 52" "fl x = Fin y" "y - of_int \<lfloor>y\<rfloor> \<noteq> 1 / 2 \<or> y \<le> x"
  shows "\<lfloor>y + 1 / 2\<rfloor> = \<lfloor>x + 1 / 2\<rfloor>"
proof (cases "x = 0")
  case True
  then show ?thesis using assms(3) by (simp add: fl_zero)
next
  case False
  then have x: "0 < x" using assms(1) by simp
  define n where "n = \<lfloor>x + 1 / 2\<rfloor>"
  have lo: "of_int (n - 1) + 1 / 2 \<le> x" unfolding n_def by simp linarith
  have hi: "x < of_int n + 1 / 2" unfolding n_def by linarith
  have a: "of_int (n - 1) + 1 / 2 \<le> y" using fl_half_bounds(1)[OF x assms(2,3) lo] .
  have b: "y \<le> of_int n + 1 / 2" using fl_half_bounds(2)[OF x assms(2,3), of n] hi by simp
  have "y \<noteq> of_int n + 1 / 2"
  proof
    assume eq: "y = of_int n + 1 / 2"
    then have "\<lfloor>y\<rfloor> = n" by (simp add: floor_eq_iff)
    then have "y - of_int \<lfloor>y\<rfloor> = 1 / 2" using eq by simp
    moreover have "\<not> y \<le> x" using eq hi by simp
    ultimately show False using assms(4) by simp
  qed
  then have "y < of_int n + 1 / 2" using b by simp
  then have "\<lfloor>y + 1 / 2\<rfloor> = n" using a by (intro floor_unique) simp_all
  then show ?thesis by (simp add: n_def)
qed

lemma quantum_int:
  assumes "1 \<le> quantum x"
  shows "\<exists>j::nat. quantum x = 2 ^ j"
proof -
  define e where "e = max (expo \<bar>x\<bar>) (- 1022) - 52"
  have q: "quantum x = 2 powi e" by (simp add: quantum_def e_def)
  have "0 \<le> e"
  proof (rule ccontr)
    assume "\<not> 0 \<le> e"
    then have "e \<le> - 1" by simp
    then have "(2::rat) powi e \<le> 2 powi (- 1)" by (rule pow2_mono)
    then show False using assms q by simp
  qed
  then have "quantum x = 2 ^ nat e" using q by (simp add: power_int_def)
  then show ?thesis ..
qed

lemma fl_big_int:
  assumes "fl x = Fin y" "2 ^ 53 \<le> \<bar>y\<bar>"
  shows "\<exists>n::int. y = of_int n"
proof -
  define q where "q = quantum x"
  define m where "m = round_half_even (x / q)"
  have y: "y = of_int m * q" using fl_FinD[OF assms(1)] by (simp add: m_def q_def)
  have qp: "0 < q" unfolding q_def by (rule quantum_pos)
  have x0: "x \<noteq> 0" using y assms(2) rhe_of_int[of 0] by (auto simp: m_def)
  then have ax: "0 < \<bar>x\<bar>" by simp
  define e where "e = max (expo \<bar>x\<bar>) (- 1022)"
  have "\<bar>x\<bar> < 2 powi (expo \<bar>x\<bar> + 1)" using expo_bounds(2)[OF ax] .
  also have "\<dots> \<le> 2 powi (e + 1)" by (rule pow2_mono) (simp add: e_def)
  also have "\<dots> = 2 ^ 53 * q"
  proof -
    have "e + 1 = 53 + (e - 52)" by simp
    then have "(2::rat) powi (e + 1) = 2 powi (53 + (e - 52))" by (rule arg_cong)
    also have "\<dots> = 2 powi 53 * 2 powi (e - 52)" by (rule power_int_add) simp
    finally show ?thesis by (simp add: q_def quantum_def e_def)
  qed
  finally have bound: "\<bar>x\<bar> < 2 ^ 53 * q" .
  have "x / q \<le> of_int (2 ^ 53)" using bound qp by (simp add: divide_le_eq abs_less_iff)
  then have m1: "m \<le> 2 ^ 53" unfolding m_def by (rule rhe_le)
  have "of_int (- (2 ^ 53)) \<le> x / q" using bound qp by (simp add: le_divide_eq abs_less_iff)
  then have m2: "- (2 ^ 53) \<le> m" unfolding m_def by (rule rhe_ge)
  have "\<bar>of_int m :: rat\<bar> \<le> 2 ^ 53" using m1 m2 by (simp add: abs_le_iff flip: of_int_abs)
  then have "\<bar>y\<bar> \<le> 2 ^ 53 * q" unfolding y using qp by (simp add: abs_mult mult_right_mono)
  then have "(2::rat) ^ 53 * 1 \<le> 2 ^ 53 * q" using assms(2) by simp
  then have "1 \<le> q" by (simp only: mult_le_cancel_left_pos zero_less_numeral zero_less_power)
  then obtain j :: nat where "q = 2 ^ j" using quantum_int[of x] unfolding q_def by blast
  then have "y = of_int (m * 2 ^ j)" using y by simp
  then show ?thesis ..
qed

section \<open>Claims about the comparison of all modes\<close>

text \<open>The rules that unfold the calculator on a concrete input.\<close>

lemmas calc_eval = Calculator_calculateAllModes_def Calculator_mode_entry_def
  Calculator_calculateEmission_def get_prop_def EMISSION_FACTORS_def js_sort_def js_sub_def
  js_gt_def js_le_def calculator_calculateAllModes_def calculator_calculateEmission_def
  hasOwnProperty_def round2_def percentage_of_def js_eq_def TRANSPORT_MODES_def inf_of_sign_def

text \<open>
  C8. For every finite distance \<open>d > 0\<close>, both \<open>calculateAllModes\<close> functions
  return exactly four entries, one for each mode of the enumeration, in ascending order
  of emission, entries of equal emission in the order of the enumeration (the sort is
  stable), and the entry of the bicycle has emission 0. The second function does so
  without raising.
\<close>

theorem allModes_sorted_four_entries:
  assumes "0 < d"
  shows "comparison_ok (Calculator_calculateAllModes (Fin d))
       \<and> (\<exists>rs. calculator_calculateAllModes (Fin d) = Inr rs \<and> comparison_ok rs)"
  using Calculator_allModes_ok[OF assms] calculator_allModes_ok[OF assms] by simp

theorem allModes_sorted_four_entries_witness:
  "(0::rat) < 451
   \<and> comparison_ok (Calculator_calculateAllModes (Fin 451))
   \<and> (\<exists>rs. calculator_calculateAllModes (Fin 451) = Inr rs \<and> comparison_ok rs)
   \<and> map mode (Calculator_calculateAllModes (Fin 451)) = [''bicycle'', ''bus'', ''car'', ''truck'']"
proof -
  have h: "(0::rat) < 451" by simp
  have "map mode (Calculator_calculateAllModes (Fin 451)) = [''bicycle'', ''bus'', ''car'', ''truck'']"
    by (simp add: calc_eval js_eval)
  then show ?thesis using h allModes_sorted_four_entries[OF h] by simp
qed

section \<open>Claims about the percentage of the car\<close>

lemma Calculator_emission_451_car:
  "Calculator_calculateEmission (Fin 451) ''car'' = Fin (7616712869790351 / 140737488355328)"
  by (simp add: calc_eval js_eval)

lemma calculator_emission_451_car:
  "calculator_calculateEmission (Fin 451) ''car'' = Inr (Fin (7616712869790351 / 140737488355328))"
  by (simp add: calc_eval js_eval)

lemma lit_5412: "js_lit (5412 / 100) = Fin (7616712869790351 / 140737488355328)"
  by (simp add: js_eval)

text \<open>
  C10 (amended). Whenever the computed car emission is a finite number greater than 0,
  the result of either \<open>calculateAllModes\<close> has an entry for the car, and that entry
  has \<open>percentageVsCar\<close> exactly 100; the second function returns without raising.
\<close>

theorem car_percentage_is_100:
  assumes "0 < e"
  shows "(Calculator_calculateEmission d ''car'' = Fin e
            \<longrightarrow> car_is_baseline (Calculator_calculateAllModes d))
       \<and> (calculator_calculateEmission d ''car'' = Inr (Fin e)
            \<longrightarrow> (\<exists>rs. calculator_calculateAllModes d = Inr rs \<and> car_is_baseline rs))"
  using Calculator_car_baseline[OF _ assms] calculator_car_baseline[OF _ assms] by blast

theorem car_percentage_is_100_witness:
  "(0::rat) < 7616712869790351 / 140737488355328
   \<and> Calculator_calculateEmission (Fin 451) ''car'' = Fin (7616712869790351 / 140737488355328)
   \<and> calculator_calculateEmission (Fin 451) ''car'' = Inr (Fin (7616712869790351 / 140737488355328))
   \<and> car_is_baseline (Calculator_calculateAllModes (Fin 451))
   \<and> (\<exists>rs. calculator_calculateAllModes (Fin 451) = Inr rs \<and> car_is_baseline rs)"
proof -
  have h: "(0::rat) < 7616712869790351 / 140737488355328" by simp
  show ?thesis
    using h car_percentage_is_100[OF h, of "Fin 451"]
      Calculator_emission_451_car calculator_emission_451_car
    by simp
qed

text \<open>
  At the distance \<open>2^1023\<close> km the second calculator multiplies the car emission by
  100 beyond the binary64 range: the emission is \<open>Infinity\<close>, which is greater
  than 0, and the percentage of the car is \<open>Infinity / Infinity\<close>, NaN.
\<close>

lemma expo_car_huge: "expo (1080863910568919 * 2 ^ 970) = 1019"
  by (rule expo_unique) simp_all

lemma expo_car_huge_100: "expo (1080863910568919 * 2 ^ 970 * 100) = 1026"
  by (rule expo_unique) simp_all

lemmas js_eval_given = fl_def quantum_def js_lit_def round_half_even_def Let_def
  powi_neg_numeral toFixed_n_def floor_rat_numeral floor_rat_neg_numeral floor_rat_one_div

lemma big_distance_pos: "0 < big_distance"
  by (simp add: big_distance_def)

lemma mul_big_car:
  "js_mul (Fin big_distance) (factor_of ''car'')
     = Fin (big_distance * (1080863910568919 / 9007199254740992))"
  using expo_car_huge by (simp add: big_distance_def factor_of_modes js_eval_given)

lemma round2_big_car: "round2 (Fin (big_distance * (1080863910568919 / 9007199254740992))) = PInf"
  using expo_car_huge_100 by (simp add: big_distance_def round2_def js_eval_given inf_of_sign_def)

lemma calculator_emission_big_car: "calculator_calculateEmission (Fin big_distance) ''car'' = Inr PInf"
proof -
  have "calculator_calculateEmission (Fin big_distance) ''car''
      = Inr (round2 (js_mul (Fin big_distance) (factor_of ''car'')))"
    by (rule calculator_emission_pos[OF big_distance_pos]) simp
  then show ?thesis by (simp only: mul_big_car round2_big_car)
qed

text \<open>
  C10 as stated does not hold: a strictly positive car emission with a car entry that
  does not read 100.
\<close>

theorem car_percentage_counterexample:
  "calculator_calculateEmission (Fin big_distance) ''car'' = Inr PInf
   \<and> js_gt PInf (Fin 0)
   \<and> (\<exists>rs. calculator_calculateAllModes (Fin big_distance) = Inr rs
         \<and> (\<exists>r\<in>set rs. mode r = ''car'' \<and> percentageVsCar r = NaN \<and> percentageVsCar r \<noteq> Fin 100))"
proof -
  have d: "\<not> js_le (Fin big_distance) (Fin 0)" using big_distance_pos by (simp add: js_le_def)
  have ks: "map fst EMISSION_FACTORS = [''bicycle'', ''car'', ''bus'', ''truck'']"
    by (simp add: EMISSION_FACTORS_def)
  from allModes_each_total[OF d, of PInf]
  obtain rs where rs: "allModes_each (Fin big_distance) PInf [''bicycle'', ''car'', ''bus'', ''truck''] = Inr rs" ..
  have res: "calculator_calculateAllModes (Fin big_distance) = Inr (js_sort (\<lambda>a b. js_sub (emission a) (emission b)) rs)"
    unfolding calculator_calculateAllModes_def ks calculator_emission_big_car using d
    by (simp add: rs del: allModes_each.simps)
  have en: "map mode rs = [''bicycle'', ''car'', ''bus'', ''truck'']"
    "\<forall>r\<in>set rs. calculator_calculateEmission (Fin big_distance) (mode r) = Inr (emission r)
            \<and> percentageVsCar r = percentage_of (emission r) PInf"
    using allModes_each_entries[OF rs] by simp_all
  have "''car'' \<in> set (map mode rs)" unfolding en(1) by simp
  then obtain r where r: "r \<in> set rs" "mode r = ''car''" by auto
  have "emission r = PInf" using en(2) r calculator_emission_big_car by auto
  then have "percentageVsCar r = NaN" using en(2) r by (simp add: percentage_of_def js_eq_def)
  then have "\<exists>r\<in>set (js_sort (\<lambda>a b. js_sub (emission a) (emission b)) rs).
      mode r = ''car'' \<and> percentageVsCar r = NaN \<and> percentageVsCar r \<noteq> Fin 100"
    using r by auto
  then show ?thesis using res calculator_emission_big_car by (simp add: js_gt_def)
qed

section \<open>The worked example of the specification\<close>

lemmas credit_eval = Calculator_calculateCarbonCredits_def Calculator_estimatedCreditPrice_def
  calculator_calculateCarbonCredits_def calculator_estimateCreditPrice_def
  KG_PER_CREDIT_def PRICE_MIN_USD_def PRICE_MAX_USD_def

lemma credits_5412: "Calculator_calculateCarbonCredits (js_lit (5412 / 100)) = js_lit (541 / 10000)"
  by (simp add: credit_eval calc_eval js_eval)

lemma price_541: "Calculator_estimatedCreditPrice (js_lit (541 / 10000))
     = \<lparr>price_min = js_lit (271 / 100), price_max = js_lit (812 / 100), price_average = js_lit (541 / 100)\<rparr>"
  by (simp add: credit_eval calc_eval js_eval)

text \<open>
  C9. For the distance 451 km and the mode car, the first calculator produces exactly
  the emission 54.12 kg, from it 0.0541 carbon credits, and from those the prices
  min 2.71, max 8.12 and average 5.41, each the Number its decimal literal denotes.
\<close>

theorem pipeline_451_car:
  "Calculator_calculateEmission (Fin 451) ''car'' = js_lit (5412 / 100)
   \<and> Calculator_calculateCarbonCredits (js_lit (5412 / 100)) = js_lit (541 / 10000)
   \<and> Calculator_estimatedCreditPrice (js_lit (541 / 10000))
       = \<lparr>price_min = js_lit (271 / 100), price_max = js_lit (812 / 100),
           price_average = js_lit (541 / 100)\<rparr>"
  using Calculator_emission_451_car lit_5412 credits_5412 price_541 by simp

text \<open>The second calculator agrees on this input.\<close>

lemma credits2_5412: "calculator_calculateCarbonCredits (js_lit (5412 / 100)) = Inr (js_lit (541 / 10000))"
  by (simp add: credit_eval calc_eval js_eval)

lemma price2_541: "calculator_estimateCreditPrice (js_lit (541 / 10000))
     = Inr \<lparr>price_min = js_lit (271 / 100), price_max = js_lit (812 / 100), price_average = js_lit (541 / 100)\<rparr>"
  by (simp add: credit_eval calc_eval js_eval)

section \<open>Claims about the emission of one mode\<close>

lemma mul_factor_cases:
  assumes "0 < d" "m \<in> {''bicycle'', ''car'', ''bus'', ''truck''}"
  shows "js_mul (Fin d) (factor_of m) = PInf
       \<or> (\<exists>p. js_mul (Fin d) (factor_of m) = Fin p \<and> 0 \<le> p)"
proof -
  obtain c where c: "factor_of m = Fin c" "0 \<le> c" using factor_of_Fin[OF assms(2)] by blast
  have "js_le (Fin 0) (fl (d * c))" using assms(1) c(2) by (intro fl_nonneg) simp
  then show ?thesis unfolding c(1) by (cases "fl (d * c)") (simp_all add: js_le_def)
qed

lemma Number_toFixed_cents:
  assumes "0 \<le> p" "p < 10 ^ 21"
  shows "Number (toFixed 2 (Fin p)) = fl (of_int \<lfloor>p * 100 + 1 / 2\<rfloor> / 100)"
  using assms by (simp add: toFixed_n_eq)

lemma round2_cents:
  assumes "fl (p * 100) = Fin y"
  shows "round2 (Fin p) = fl (of_int \<lfloor>y + 1 / 2\<rfloor> / 100)"
  using assms by (simp add: round2_def)

text \<open>
  C2 (amended). For every finite distance \<open>d > 0\<close> and every mode of the enumeration
  whose binary64 product \<open>p = d \<times> factor\<close> has \<open>100 p < 2^52\<close>, the two
  \<open>calculateEmission\<close> functions return equal results, unless the binary64 product
  \<open>p \<times> 100\<close> is a half-integer strictly above the exact \<open>100 p\<close>.
\<close>

theorem variants_agree_unless_half_cent:
  assumes "0 < d" "m \<in> {''bicycle'', ''car'', ''bus'', ''truck''}"
    and "js_mul (Fin d) (factor_of m) = Fin p" "p * 100 < 2 ^ 52"
    and "js_mul (Fin p) (Fin 100) = Fin y"
    and "y - of_int \<lfloor>y\<rfloor> \<noteq> 1 / 2 \<or> y \<le> p * 100"
  shows "calculator_calculateEmission (Fin d) m = Inr (Calculator_calculateEmission (Fin d) m)"
proof -
  have p0: "0 \<le> p" using mul_factor_cases[OF assms(1,2)] assms(3) by simp
  have "p * 100 < 10 ^ 21 * 100" using assms(4) by simp
  then have p21: "p < 10 ^ 21" by simp
  have y: "fl (p * 100) = Fin y" using assms(5) by simp
  have x0: "0 \<le> p * 100" using p0 by simp
  have "\<lfloor>y + 1 / 2\<rfloor> = \<lfloor>p * 100 + 1 / 2\<rfloor>"
    using round_after_fl[OF x0 assms(4) y assms(6)] .
  then have "round2 (Fin p) = Number (toFixed 2 (Fin p))"
    unfolding round2_cents[OF y] Number_toFixed_cents[OF p0 p21] by simp
  then show ?thesis
    unfolding calculator_emission_pos[OF assms(1,2)] Calculator_emission_pos[OF assms(1,2)] assms(3)
    by simp
qed

theorem variants_agree_unless_half_cent_witness:
  "(0::rat) < 451 \<and> ''car'' \<in> {''bicycle'', ''car'', ''bus'', ''truck''}
   \<and> js_mul (Fin 451) (factor_of ''car'') = Fin (7616712869790351 / 140737488355328)
   \<and> (7616712869790351 / 140737488355328 :: rat) * 100 < 2 ^ 52
   \<and> js_mul (Fin (7616712869790351 / 140737488355328)) (Fin 100) = Fin 5412
   \<and> (5412::rat) - of_int \<lfloor>5412::rat\<rfloor> = 0
   \<and> calculator_calculateEmission (Fin 451) ''car'' = Inr (Calculator_calculateEmission (Fin 451) ''car'')"
proof -
  have h1: "(0::rat) < 451" by simp
  have h2: "''car'' \<in> {''bicycle'', ''car'', ''bus'', ''truck''}" by simp
  have h3: "js_mul (Fin 451) (factor_of ''car'') = Fin (7616712869790351 / 140737488355328)"
    by (simp add: factor_of_modes js_eval)
  have h4: "(7616712869790351 / 140737488355328 :: rat) * 100 < 2 ^ 52" by simp
  have h5: "js_mul (Fin (7616712869790351 / 140737488355328)) (Fin 100) = Fin 5412"
    by (simp add: js_eval)
  have h6: "(5412::rat) - of_int \<lfloor>5412::rat\<rfloor> \<noteq> 1 / 2 \<or> (5412::rat) \<le> 7616712869790351 / 140737488355328 * 100"
    by simp
  have h7: "(5412::rat) - of_int \<lfloor>5412::rat\<rfloor> = 0" by simp
  show ?thesis
    using h1 h2 h3 h4 h5 h7 variants_agree_unless_half_cent[OF h1 h2 h3 h4 h5 h6] by blast
qed

text \<open>
  C2 as stated does not hold. For 15 km by bus the binary64 product is just below 1.335,
  which \<open>toFixed(2)\<close> prints as 1.33, while its product with 100 rounds to exactly
  133.5, which \<open>Math.round\<close> takes to 134.
\<close>

lemma lit_133_134: "js_lit (133 / 100) \<noteq> js_lit (134 / 100)"
  by (simp add: js_eval)

lemma Calculator_emission_15_bus:
  "Calculator_calculateEmission (Fin 15) ''bus'' = js_lit (133 / 100)"
  by (simp add: calc_eval js_eval)

theorem variants_differ_counterexample:
  "(0::rat) < 15 \<and> ''bus'' \<in> {''bicycle'', ''car'', ''bus'', ''truck''}
   \<and> Calculator_calculateEmission (Fin 15) ''bus'' = js_lit (133 / 100)
   \<and> calculator_calculateEmission (Fin 15) ''bus'' = Inr (js_lit (134 / 100))
   \<and> calculator_calculateEmission (Fin 15) ''bus'' \<noteq> Inr (Calculator_calculateEmission (Fin 15) ''bus'')"
proof -
  have a: "Calculator_calculateEmission (Fin 15) ''bus'' = js_lit (133 / 100)"
    by (rule Calculator_emission_15_bus)
  have b: "calculator_calculateEmission (Fin 15) ''bus'' = Inr (js_lit (134 / 100))"
    by (simp add: calc_eval js_eval)
  show ?thesis unfolding a b using lit_133_134 by simp
qed

lemma round_half_away_nonneg: "0 \<le> r \<Longrightarrow> round_half_away r = \<lfloor>r + 1 / 2\<rfloor>"
  by (simp add: round_half_away_def)

lemma factor_table:
  "map factor_of [''bicycle'', ''car'', ''bus'', ''truck'']
     = [Fin 0, js_lit (12 / 100), js_lit (89 / 1000), js_lit (96 / 100)]"
  by (simp add: factor_of_def get_prop_def EMISSION_FACTORS_def)

lemma emission_rounded:
  assumes "0 < d" "m \<in> {''bicycle'', ''car'', ''bus'', ''truck''}"
  shows "Calculator_calculateEmission (Fin d) m = rounded_binary64_product (Fin d) m"
proof -
  consider "js_mul (Fin d) (factor_of m) = PInf"
    | p where "js_mul (Fin d) (factor_of m) = Fin p" "0 \<le> p"
    using mul_factor_cases[OF assms] by blast
  then show ?thesis
  proof cases
    case 1
    then show ?thesis
      unfolding Calculator_emission_pos[OF assms] rounded_binary64_product_def by simp
  next
    case 2
    have spec: "rounded_binary64_product (Fin d) m = fl (of_int \<lfloor>p * 100 + 1 / 2\<rfloor> / 100)"
      unfolding rounded_binary64_product_def 2(1) using 2(2)
      by (simp add: js_lit_def round_to_decimals_def round_half_away_nonneg)
    show ?thesis
    proof (cases "p < 10 ^ 21")
      case True
      show ?thesis
        unfolding Calculator_emission_pos[OF assms] 2(1) spec Number_toFixed_cents[OF 2(2) True]
        by (rule refl)
    next
      case False
      then have big: "10 ^ 21 \<le> \<bar>p\<bar>" using 2(2) by simp
      have fp: "fl (d * c) = Fin p" if "factor_of m = Fin c" for c using 2(1) that by simp
      obtain c where c: "factor_of m = Fin c" using factor_of_Fin[OF assms(2)] by blast
      have "(2::rat) ^ 53 \<le> 10 ^ 21" by simp
      then have "2 ^ 53 \<le> \<bar>p\<bar>" using big by linarith
      then obtain n :: int where n: "p = of_int n" using fl_big_int[OF fp[OF c]] by blast
      have "\<lfloor>p * 100 + 1 / 2\<rfloor> = n * 100"
        unfolding n by (intro floor_unique) simp_all
      then have "of_int \<lfloor>p * 100 + 1 / 2\<rfloor> / 100 = p" by (simp add: n)
      then show ?thesis
        unfolding Calculator_emission_pos[OF assms] 2(1) spec using big by simp
    qed
  qed
qed

text \<open>
  C3 (amended). For every finite distance \<open>d > 0\<close> and each of the four modes, the
  emission of the first calculator is the binary64 product of \<open>d\<close> and the binary64
  factor of the mode (the Numbers of the literals 0, 0.12, 0.089 and 0.96), rounded to two
  decimal places, half away from zero.
\<close>

theorem emission_is_rounded_binary64_product:
  assumes "0 < d" "m \<in> {''bicycle'', ''car'', ''bus'', ''truck''}"
  shows "Calculator_calculateEmission (Fin d) m = rounded_binary64_product (Fin d) m
       \<and> map factor_of [''bicycle'', ''car'', ''bus'', ''truck'']
           = [Fin 0, js_lit (12 / 100), js_lit (89 / 1000), js_lit (96 / 100)]"
  using emission_rounded[OF assms] factor_table by simp

theorem emission_is_rounded_binary64_product_witness:
  "(0::rat) < 451 \<and> ''car'' \<in> {''bicycle'', ''car'', ''bus'', ''truck''}
   \<and> Calculator_calculateEmission (Fin 451) ''car'' = rounded_binary64_product (Fin 451) ''car''
   \<and> rounded_binary64_product (Fin 451) ''car'' = js_lit (5412 / 100)"
proof -
  have h1: "(0::rat) < 451" by simp
  have h2: "''car'' \<in> {''bicycle'', ''car'', ''bus'', ''truck''}" by simp
  show ?thesis
    using emission_is_rounded_binary64_product[OF h1 h2] Calculator_emission_451_car lit_5412
    by simp
qed

text \<open>
  C3 as stated does not hold. For 15 km by bus the product in the specification's words
  is 1.335, which rounds to 1.34, half away from zero as well as half to even; the
  binary64 product lies just below 1.335, and the first calculator returns 1.33.
\<close>

theorem emission_decimal_product_counterexample:
  "(0::rat) < 15
   \<and> (15::rat) * (89 / 1000) = 1335 / 1000
   \<and> round_half_away (15 * (89 / 1000) * 10 ^ 2) = 134
   \<and> round_half_even (15 * (89 / 1000) * 10 ^ 2) = 134
   \<and> spec_emission 15 ''bus'' = Some (js_lit (134 / 100))
   \<and> Calculator_calculateEmission (Fin 15) ''bus'' = js_lit (133 / 100)
   \<and> Some (Calculator_calculateEmission (Fin 15) ''bus'') \<noteq> spec_emission 15 ''bus''"
proof -
  have a: "round_half_away (15 * (89 / 1000) * 10 ^ 2) = 134"
    by (simp add: round_half_away_def floor_rat_numeral)
  have b: "round_half_even (15 * (89 / 1000) * 10 ^ 2) = 134"
    by (simp add: round_half_even_def Let_def floor_rat_numeral)
  have c: "spec_emission 15 ''bus'' = Some (js_lit (134 / 100))"
    using a by (simp add: spec_emission_def spec_factors_def round_to_decimals_def)
  show ?thesis
    unfolding c Calculator_emission_15_bus using a b lit_133_134 by simp
qed

section \<open>Claims about the savings\<close>

lemma js_le_zero_Fin [simp]: "js_le (Fin 0) (Fin x) \<longleftrightarrow> 0 \<le> x"
  by (auto simp: js_le_def)

lemma js_le_Fin_zero [simp]: "js_le (Fin x) (Fin 0) \<longleftrightarrow> x \<le> 0"
  by (auto simp: js_le_def)

lemma round2_nonneg:
  assumes "js_le (Fin 0) w"
  shows "js_le (Fin 0) (round2 w)"
proof (cases w)
  case (Fin x)
  then have x: "0 \<le> x" using assms by simp
  have f: "js_le (Fin 0) (fl (x * 100))" using x by (intro fl_nonneg) simp
  show ?thesis
  proof (cases "fl (x * 100)")
    case (Fin y)
    then have "0 \<le> y" using f by simp
    then have "(0::rat) \<le> of_int \<lfloor>y + 1 / 2\<rfloor> / 100" by simp
    then have "js_le (Fin 0) (fl (of_int \<lfloor>y + 1 / 2\<rfloor> / 100))" by (rule fl_nonneg)
    then show ?thesis using Fin \<open>w = Fin x\<close> by (simp add: round2_def)
  next
    case PInf
    then show ?thesis using \<open>w = Fin x\<close> by (simp add: round2_def inf_of_sign_def js_le_def)
  next
    case NInf
    then show ?thesis using f by (simp add: js_le_def)
  next
    case NaN
    then show ?thesis using f by (simp add: js_le_def)
  qed
next
  case PInf
  then show ?thesis by (simp add: round2_def inf_of_sign_def js_le_def)
next
  case NInf
  then show ?thesis using assms by (simp add: js_le_def)
next
  case NaN
  then show ?thesis using assms by (simp add: js_le_def)
qed

lemma Math_max_zero_nonneg: "v \<noteq> NaN \<Longrightarrow> js_le (Fin 0) (Math_max (Fin 0) v)"
  by (cases v) (auto simp: Math_max_def js_le_def)

lemma Math_max_zero_nonpos: "js_le v (Fin 0) \<Longrightarrow> Math_max (Fin 0) v = Fin 0"
  by (cases v) (auto simp: Math_max_def js_le_def)

lemma sub_Fin: "js_sub (Fin b) (Fin a) = fl (b - a)"
  by (simp add: js_sub_def)

lemma Number_toFixed_nonpos:
  assumes "js_le v (Fin 0)"
  shows "js_le (Number (toFixed 2 v)) (Fin 0)"
proof (cases v)
  case (Fin x)
  then have x: "x \<le> 0" using assms by simp
  have "0 \<le> toFixed_n 2 (- x)" using x by (simp add: toFixed_n_eq)
  then have "- (of_int (toFixed_n 2 (- x)) / 100) \<le> (0::rat)" by simp
  then have a: "js_le (fl (- (of_int (toFixed_n 2 (- x)) / 100))) (Fin 0)" by (rule fl_nonpos)
  have b: "js_le (fl x) (Fin 0)" using x by (rule fl_nonpos)
  have c: "of_int (toFixed_n 2 0) / 100 = (0::rat)" by (simp add: toFixed_n_eq floor_rat_one_div)
  show ?thesis
  proof (cases "x = 0")
    case True
    then show ?thesis using Fin c by (simp add: fl_zero)
  next
    case False
    then have "x < 0" using x by simp
    then show ?thesis using Fin a b by simp
  qed
next
  case PInf
  then show ?thesis using assms by (simp add: js_le_def)
next
  case NInf
  then show ?thesis by (simp add: js_le_def)
next
  case NaN
  then show ?thesis using assms by (simp add: js_le_def)
qed

lemma savings_saved:
  assumes "0 < b"
  shows "savedKg (calculator_calculateSavings (Fin a) (Fin b))
            = round2 (Math_max (Fin 0) (js_sub (Fin b) (Fin a)))"
    and "savedKg (Calculator_calculateSavingd (Fin a) (Fin b))
            = Number (toFixed 2 (js_sub (Fin b) (Fin a)))"
  using assms
  by (simp_all add: calculator_calculateSavings_def Calculator_calculateSavingd_def Let_def
      del: toFixed.simps Number.simps)

text \<open>
  C1 (amended). For every finite actual emission and every finite baseline greater than
  0, \<open>calculateSavings\<close> of the second calculator returns as \<open>savedKg\<close> the
  value \<open>max(0, baseline - actual)\<close> rounded to two decimals, which is never
  negative and is 0 whenever the actual emission is not below the baseline;
  \<open>calculateSavingd\<close> of the first calculator returns the difference
  \<open>baseline - actual\<close> itself rounded to two decimals, as its comment says, which
  is at most 0 whenever the actual emission is not below the baseline.
\<close>

theorem savings_clamped_in_module_only:
  assumes "0 < b"
  shows "savedKg (calculator_calculateSavings (Fin a) (Fin b))
            = round2 (Math_max (Fin 0) (js_sub (Fin b) (Fin a)))
       \<and> js_le (Fin 0) (savedKg (calculator_calculateSavings (Fin a) (Fin b)))
       \<and> (b \<le> a \<longrightarrow> savedKg (calculator_calculateSavings (Fin a) (Fin b)) = Fin 0)
       \<and> savedKg (Calculator_calculateSavingd (Fin a) (Fin b))
            = Number (toFixed 2 (js_sub (Fin b) (Fin a)))
       \<and> (b \<le> a \<longrightarrow> js_le (savedKg (Calculator_calculateSavingd (Fin a) (Fin b))) (Fin 0))"
proof -
  have nn: "js_le (Fin 0) (round2 (Math_max (Fin 0) (js_sub (Fin b) (Fin a))))"
    unfolding sub_Fin by (intro round2_nonneg Math_max_zero_nonneg) simp
  have z: "round2 (Math_max (Fin 0) (js_sub (Fin b) (Fin a))) = Fin 0" if "b \<le> a"
  proof -
    have "js_le (fl (b - a)) (Fin 0)" using that by (intro fl_nonpos) simp
    then show ?thesis unfolding sub_Fin by (simp add: Math_max_zero_nonpos round2_zero)
  qed
  have np: "js_le (Number (toFixed 2 (js_sub (Fin b) (Fin a)))) (Fin 0)" if "b \<le> a"
  proof -
    have "js_le (fl (b - a)) (Fin 0)" using that by (intro fl_nonpos) simp
    then show ?thesis unfolding sub_Fin by (rule Number_toFixed_nonpos)
  qed
  show ?thesis unfolding savings_saved[OF assms] using nn z np by simp
qed

lemmas savings_eval = calculator_calculateSavings_def Calculator_calculateSavingd_def
  Math_max_def

theorem savings_clamped_in_module_only_witness:
  "(0::rat) < 5 \<and> (5::rat) \<le> 10
   \<and> savedKg (calculator_calculateSavings (Fin 10) (Fin 5)) = Fin 0
   \<and> js_le (savedKg (Calculator_calculateSavingd (Fin 10) (Fin 5))) (Fin 0)
   \<and> js_le (Fin 0) (savedKg (calculator_calculateSavings (Fin 10) (Fin 5)))"
proof -
  have h: "(0::rat) < 5" by simp
  have c: "(5::rat) \<le> 10" by simp
  show ?thesis using h c savings_clamped_in_module_only[OF h, of 10] by blast
qed

text \<open>
  C1 as stated does not hold: with actual 10 and baseline 5 the first calculator saves
  -5 kg, and with actual 0 and baseline 0.125 the second returns 0.13, not 0.125.
\<close>

theorem savings_counterexample:
  "js_gt (Fin 5) (Fin 0) \<and> js_gt (Fin 10) (Fin 5)
   \<and> savedKg (Calculator_calculateSavingd (Fin 10) (Fin 5)) = Fin (- 5)
   \<and> js_lt (Fin (- 5)) (Fin 0)
   \<and> js_gt (Fin (1 / 8)) (Fin 0)
   \<and> Math_max (Fin 0) (js_sub (Fin (1 / 8)) (Fin 0)) = Fin (1 / 8)
   \<and> savedKg (calculator_calculateSavings (Fin 0) (Fin (1 / 8))) = js_lit (13 / 100)
   \<and> js_lit (13 / 100) \<noteq> Fin (1 / 8)"
  by (simp add: savings_eval calc_eval js_eval)

section \<open>Claims about invalid input\<close>

lemma get_prop_unknown:
  assumes "m \<notin> {''bicycle'', ''car'', ''bus'', ''truck''}"
  shows "get_prop EMISSION_FACTORS m = (if m \<in> set Object_prototype_names then Obj else Undefined)"
  using assms by (simp add: get_prop_def EMISSION_FACTORS_def)

lemma js_mul_NaN_right [simp]: "js_mul x NaN = NaN"
  by (cases x) simp_all

text \<open>
  C4 (amended). For every input whose mode is outside the enumeration, the second
  calculator's \<open>calculateEmission\<close> raises an error for every distance (invalid
  distance if the distance is at most 0, unknown mode otherwise). The first calculator's
  \<open>calculateEmission\<close> does not raise: its guard \<open>factor === undefined\<close> returns
  0; for a mode that names a property inherited from \<open>Object.prototype\<close> it returns
  0 if the distance is at most 0 and NaN otherwise.
\<close>

theorem unknown_mode_rejected_by_module_only:
  assumes "m \<notin> {''bicycle'', ''car'', ''bus'', ''truck''}"
  shows "calculator_calculateEmission d m
            = (if js_le d (Fin 0) then Inl InvalidDistance else Inl (UnknownMode m))
       \<and> (m \<notin> set Object_prototype_names \<longrightarrow> Calculator_calculateEmission d m = Fin 0)
       \<and> (m \<in> set Object_prototype_names \<longrightarrow>
            Calculator_calculateEmission d m = (if js_le d (Fin 0) then Fin 0 else NaN))"
  using assms
  by (simp add: calculator_calculateEmission_def Calculator_calculateEmission_def
      hasOwnProperty_modes get_prop_unknown Let_def)

theorem unknown_mode_rejected_by_module_only_witness:
  "''plane'' \<notin> {''bicycle'', ''car'', ''bus'', ''truck''}
   \<and> ''plane'' \<notin> set Object_prototype_names
   \<and> ''toString'' \<notin> {''bicycle'', ''car'', ''bus'', ''truck''}
   \<and> ''toString'' \<in> set Object_prototype_names
   \<and> calculator_calculateEmission (Fin 10) ''plane'' = Inl (UnknownMode ''plane'')
   \<and> Calculator_calculateEmission (Fin 10) ''plane'' = Fin 0
   \<and> calculator_calculateEmission (Fin 10) ''toString'' = Inl (UnknownMode ''toString'')
   \<and> Calculator_calculateEmission (Fin 10) ''toString'' = NaN"
proof -
  have h1: "''plane'' \<notin> {''bicycle'', ''car'', ''bus'', ''truck''}" by simp
  have h2: "''plane'' \<notin> set Object_prototype_names" by (simp add: Object_prototype_names_def)
  have h3: "''toString'' \<notin> {''bicycle'', ''car'', ''bus'', ''truck''}" by simp
  have h4: "''toString'' \<in> set Object_prototype_names" by (simp add: Object_prototype_names_def)
  have d: "\<not> js_le (Fin 10) (Fin 0)" by (simp add: js_le_def)
  show ?thesis
    using h1 h2 h3 h4 d
      unknown_mode_rejected_by_module_only[OF h1, of "Fin 10"]
      unknown_mode_rejected_by_module_only[OF h3, of "Fin 10"]
    by simp
qed

text \<open>
  C4 as stated does not hold: the first calculator answers the unknown mode
  \<open>plane\<close> with 0.
\<close>

theorem unknown_mode_counterexample:
  "''plane'' \<notin> {''bicycle'', ''car'', ''bus'', ''truck''}
   \<and> Calculator_calculateEmission (Fin 10) ''plane'' = Fin 0"
  by (simp add: Calculator_calculateEmission_def get_prop_def EMISSION_FACTORS_def
      Object_prototype_names_def)

text \<open>
  C5 (amended). For every finite distance \<open>d > 0\<close> the emission of the bicycle is 0
  in both calculators, without an error. For \<open>d \<le> 0\<close>, and so for \<open>d = 0\<close>,
  the second calculator raises the invalid-distance error, while the first returns 0.
\<close>

theorem bicycle_emission_zero:
  "(0 < d \<longrightarrow> calculator_calculateEmission (Fin d) ''bicycle'' = Inr (Fin 0))
   \<and> (d \<le> 0 \<longrightarrow> calculator_calculateEmission (Fin d) ''bicycle'' = Inl InvalidDistance)
   \<and> Calculator_calculateEmission (Fin d) ''bicycle'' = Fin 0"
proof -
  have a: "calculator_calculateEmission (Fin d) ''bicycle'' = Inr (Fin 0)" if "0 < d"
    using calculator_emission_pos[OF that, of "''bicycle''"]
    by (simp add: factor_of_modes(1) fl_zero round2_zero)
  have b: "calculator_calculateEmission (Fin d) ''bicycle'' = Inl InvalidDistance" if "d \<le> 0"
    using that by (simp add: calculator_calculateEmission_def)
  have c: "Calculator_calculateEmission (Fin d) ''bicycle'' = Fin 0"
  proof (cases "0 < d")
    case True
    then show ?thesis
      using Calculator_emission_pos[OF True, of "''bicycle''"]
      by (simp add: factor_of_modes(1) fl_zero Number_toFixed_zero del: toFixed.simps Number.simps)
  next
    case False
    then show ?thesis by (simp add: Calculator_calculateEmission_def)
  qed
  show ?thesis using a b c by simp
qed

theorem bicycle_emission_zero_witness:
  "(0::rat) < 451 \<and> (0::rat) \<le> 0
   \<and> calculator_calculateEmission (Fin 451) ''bicycle'' = Inr (Fin 0)
   \<and> Calculator_calculateEmission (Fin 451) ''bicycle'' = Fin 0
   \<and> calculator_calculateEmission (Fin 0) ''bicycle'' = Inl InvalidDistance
   \<and> Calculator_calculateEmission (Fin 0) ''bicycle'' = Fin 0"
  using bicycle_emission_zero[of 451] bicycle_emission_zero[of 0] by simp

text \<open>
  C5 as stated does not hold: at distance 0 the second calculator raises.
\<close>

theorem bicycle_zero_distance_counterexample:
  "js_le (Fin 0) (Fin 0) \<and> calculator_calculateEmission (Fin 0) ''bicycle'' = Inl InvalidDistance"
  by (simp add: calculator_calculateEmission_def)

section \<open>Normalisation of city names\<close>

lemma letter_not_ws: "65 \<le> c \<Longrightarrow> c \<le> 122 \<Longrightarrow> \<not> is_ws c"
  unfolding is_ws_def by simp

lemma same_ascii_letter_ws:
  assumes "same_ascii_letter c c'"
  shows "is_ws c = is_ws c'"
proof -
  consider "c = c'" | "65 \<le> c" "c \<le> 90" "c' = c + 32" | "65 \<le> c'" "c' \<le> 90" "c = c' + 32"
    using assms unfolding same_ascii_letter_def by blast
  then show ?thesis
  proof cases
    case 1
    then show ?thesis by simp
  next
    case 2
    then have "\<not> is_ws c" "\<not> is_ws c'" by (simp_all add: letter_not_ws)
    then show ?thesis by simp
  next
    case 3
    then have "\<not> is_ws c" "\<not> is_ws c'" by (simp_all add: letter_not_ws)
    then show ?thesis by simp
  qed
qed

lemma same_ascii_letter_cases:
  assumes "same_ascii_letter c c'"
  obtains "c = c'" | "65 \<le> c" "c \<le> 90" "c' = c + 32" | "65 \<le> c'" "c' \<le> 90" "c = c' + 32"
  using assms unfolding same_ascii_letter_def by blast

lemma same_ascii_letter_lower:
  "same_ascii_letter c c' \<Longrightarrow> lower_point ucd c = lower_point ucd c'"
  by (auto simp: same_ascii_letter_def lower_point_def)

lemma same_ascii_letter_cased:
  "same_ascii_letter c c' \<Longrightarrow> cased ucd c = cased ucd c'"
  by (erule same_ascii_letter_cases) (simp_all add: cased_def)

lemma same_ascii_letter_ignorable:
  "same_ascii_letter c c' \<Longrightarrow> case_ignorable ucd c = case_ignorable ucd c'"
  by (erule same_ascii_letter_cases) (simp_all add: case_ignorable_def)

lemma same_ascii_letter_sigma:
  "same_ascii_letter c c' \<Longrightarrow> (c = 931) = (c' = 931)"
  by (erule same_ascii_letter_cases) simp_all

lemma same_ascii_letter_lead:
  "same_ascii_letter c c' \<Longrightarrow> is_lead c \<Longrightarrow> c' = c"
  by (erule same_ascii_letter_cases) (simp_all add: is_lead_def)

lemma same_ascii_letter_trail:
  "same_ascii_letter c c' \<Longrightarrow> is_trail c \<Longrightarrow> c' = c"
  by (erule same_ascii_letter_cases) (simp_all add: is_trail_def)

lemma same_ascii_letter_refl: "same_ascii_letter c c"
  by (simp add: same_ascii_letter_def)

lemma same_ascii_letter_sym: "same_ascii_letter c c' \<Longrightarrow> same_ascii_letter c' c"
  unfolding same_ascii_letter_def by blast

lemma case_variant_code_points:
  "list_all2 same_ascii_letter s t
   \<Longrightarrow> list_all2 same_ascii_letter (StringToCodePoints s) (StringToCodePoints t)"
proof (induction s arbitrary: t rule: StringToCodePoints.induct)
  case 1
  then show ?case by simp
next
  case (2 c)
  then show ?case by (auto simp: list_all2_Cons1)
next
  case (3 c d s)
  from 3(3) obtain c' d' s' where t: "t = c' # d' # s'"
    and c: "same_ascii_letter c c'" and d: "same_ascii_letter d d'"
    and s: "list_all2 same_ascii_letter s s'"
    by (auto simp: list_all2_Cons1)
  have ds: "list_all2 same_ascii_letter (d # s) (d' # s')" using d s by simp
  show ?case
  proof (cases "is_lead c \<and> is_trail d")
    case True
    then have e: "c' = c" "d' = d"
      using same_ascii_letter_lead[OF c] same_ascii_letter_trail[OF d] by simp_all
    show ?thesis unfolding t e using True 3(1)[OF True s]
      by (simp add: same_ascii_letter_refl)
  next
    case False
    have nf: "\<not> (is_lead c' \<and> is_trail d')"
    proof
      assume a: "is_lead c' \<and> is_trail d'"
      then have "c = c'" "d = d'"
        using same_ascii_letter_lead[OF same_ascii_letter_sym[OF c]]
          same_ascii_letter_trail[OF same_ascii_letter_sym[OF d]] by simp_all
      then show False using a False by simp
    qed
    have l: "StringToCodePoints (c # d # s) = c # StringToCodePoints (d # s)"
      using False by auto
    have r: "StringToCodePoints (c' # d' # s') = c' # StringToCodePoints (d' # s')"
      using nf by auto
    show ?thesis unfolding t l r using 3(2)[OF False ds] c by simp
  qed
qed

lemma case_variant_cased_first:
  "list_all2 same_ascii_letter s t \<Longrightarrow> cased_first ucd s = cased_first ucd t"
  by (induction rule: list_all2_induct)
    (simp_all add: same_ascii_letter_cased same_ascii_letter_ignorable)

lemma case_variant_toLowercase:
  "list_all2 same_ascii_letter s t \<Longrightarrow> list_all2 same_ascii_letter p q
   \<Longrightarrow> toLowercase ucd p s = toLowercase ucd q t"
proof (induction arbitrary: p q rule: list_all2_induct)
  case Nil
  then show ?case by simp
next
  case (Cons c s c' t)
  have pq: "list_all2 same_ascii_letter (c # p) (c' # q)" using Cons(1,4) by simp
  have fs: "Final_Sigma ucd p s = Final_Sigma ucd q t"
    unfolding Final_Sigma_def
    using case_variant_cased_first[OF Cons(4)] case_variant_cased_first[OF Cons(2)] by simp
  show ?case
    using Cons(3)[OF pq] fs same_ascii_letter_sigma[OF Cons(1)] same_ascii_letter_lower[OF Cons(1)]
    by simp
qed

lemma case_variant_lower: "case_variant s t \<Longrightarrow> toLowerCase ucd s = toLowerCase ucd t"
  unfolding case_variant_def toLowerCase_def
  using case_variant_toLowercase[OF case_variant_code_points, of s t "[]" "[]" ucd] by simp

lemma case_variant_dropWhile:
  "case_variant s t \<Longrightarrow> case_variant (dropWhile is_ws s) (dropWhile is_ws t)"
  unfolding case_variant_def
  by (induction rule: list_all2_induct) (auto dest: same_ascii_letter_ws)

lemma case_variant_rev: "case_variant s t \<Longrightarrow> case_variant (rev s) (rev t)"
  unfolding case_variant_def by simp

lemma case_variant_trim: "case_variant s t \<Longrightarrow> case_variant (trim s) (trim t)"
  unfolding trim_def
  by (intro case_variant_rev case_variant_dropWhile)

lemma trim_pad:
  assumes "all_ws w1" "all_ws w2"
  shows "trim (w1 @ s @ w2) = trim s"
proof -
  have w1: "\<And>x. x \<in> set w1 \<Longrightarrow> is_ws x" and w2: "\<And>x. x \<in> set w2 \<Longrightarrow> is_ws x"
    using assms by (simp_all add: all_ws_def list_all_iff)
  have a: "dropWhile is_ws (w1 @ s @ w2) = dropWhile is_ws (s @ w2)"
    using w1 by (rule dropWhile_append2)
  show ?thesis
  proof (cases "\<forall>x\<in>set s. is_ws x")
    case True
    then have e1: "dropWhile is_ws (s @ w2) = []" using w2 by (simp add: dropWhile_eq_Nil_conv)
    have e2: "dropWhile is_ws s = []" using True by (simp add: dropWhile_eq_Nil_conv)
    show ?thesis unfolding trim_def a e1 e2 by simp
  next
    case False
    then obtain x where x: "x \<in> set s" "\<not> is_ws x" by blast
    then have b: "dropWhile is_ws (s @ w2) = dropWhile is_ws s @ w2" by (rule dropWhile_append1)
    have "\<And>y. y \<in> set (rev w2) \<Longrightarrow> is_ws y" using w2 by simp
    then have "dropWhile is_ws (rev w2 @ rev (dropWhile is_ws s)) = dropWhile is_ws (rev (dropWhile is_ws s))"
      by (rule dropWhile_append2)
    then show ?thesis by (simp add: trim_def a b)
  qed
qed

lemma normalize_variant:
  assumes "all_ws w1" "all_ws w2" "case_variant s t"
  shows "toLowerCase ucd (trim (w1 @ t @ w2)) = toLowerCase ucd (trim s)"
  unfolding trim_pad[OF assms(1,2)]
  by (rule case_variant_lower[OF case_variant_trim[OF assms(3)], symmetric])

lemma trim_Nil [simp]: "trim [] = []"
  by (simp add: trim_def)

lemma toLowerCase_Nil [simp]: "toLowerCase ucd [] = []"
  by (simp add: toLowerCase_def CodePointsToString_def)

text \<open>A capital sigma at the end of a word, after an ASCII letter.\<close>

lemma toLowerCase_final_sigma:
  "toLowerCase ucd (units ''A'' @ [931]) = units ''a'' @ [962]"
  by (simp add: toLowerCase_def units_def is_lead_def is_trail_def Final_Sigma_def cased_def
      lower_point_def CodePointsToString_def UTF16EncodeCodePoint_def)

section \<open>The lookup of a distance\<close>

lemma route_matches_sym: "route_matches ucd a b r = route_matches ucd b a r"
  by (auto simp: route_matches_def Let_def)

lemma findDistance_find_sym:
  "findDistance_find ucd routes a b = findDistance_find ucd routes b a"
proof -
  have "route_matches ucd x y = route_matches ucd y x" for x y
    by (rule ext) (rule route_matches_sym)
  then show ?thesis by (simp add: findDistance_find_def Let_def)
qed

lemma findDistance_find_variant:
  assumes "all_ws w1" "all_ws w2" "all_ws w3" "all_ws w4" "case_variant a a'" "case_variant b b'"
  shows "findDistance_find ucd routes (w1 @ a' @ w2) (w3 @ b' @ w4) = findDistance_find ucd routes a b"
  unfolding findDistance_find_def
    normalize_variant[OF assms(1,2,5)] normalize_variant[OF assms(3,4,6)] ..

lemma findDistance_loop_find:
  "findDistance_loop ucd routes a b i
     = (case find (route_matches ucd a b) (drop i routes) of
          Some r \<Rightarrow> Some (distanceKm r) | None \<Rightarrow> None)"
proof (induction ucd routes a b i rule: findDistance_loop.induct)
  case (1 ucd routes a b i)
  show ?case
  proof (cases "i < length routes")
    case True
    then have d: "drop i routes = routes ! i # drop (i + 1) routes"
      by (simp add: Cons_nth_drop_Suc)
    show ?thesis
    proof (cases "route_matches ucd a b (routes ! i)")
      case m: True
      then show ?thesis using True by (subst findDistance_loop.simps) (simp add: d)
    next
      case m: False
      then show ?thesis using True 1[OF True refl m]
        by (subst findDistance_loop.simps) (simp add: d)
    qed
  next
    case False
    then show ?thesis by (subst findDistance_loop.simps) simp
  qed
qed

lemma no_match_empty:
  assumes "\<forall>r\<in>set routes. names_nonempty ucd r" "a = [] \<or> b = []"
  shows "find (route_matches ucd a b) routes = None"
  using assms by (auto simp: find_None_iff route_matches_def Let_def names_nonempty_def)

lemma findDistance_for_find:
  assumes "\<forall>r\<in>set routes. names_nonempty ucd r"
  shows "findDistance_for ucd routes x y = findDistance_find ucd routes x y"
proof (cases "x = [] \<or> y = []")
  case True
  then have "toLowerCase ucd (trim x) = [] \<or> toLowerCase ucd (trim y) = []" by auto
  then have "find (route_matches ucd (toLowerCase ucd (trim x)) (toLowerCase ucd (trim y))) routes = None"
    using no_match_empty[OF assms] by blast
  then show ?thesis using True by (simp add: findDistance_for_def findDistance_find_def)
next
  case False
  then show ?thesis
    by (simp add: findDistance_for_def findDistance_find_def Let_def findDistance_loop_find)
qed

lemma UTF16EncodeCodePoint_nonempty: "UTF16EncodeCodePoint c \<noteq> []"
  by (simp add: UTF16EncodeCodePoint_def)

lemma ascii_head_nonempty:
  assumes "c < 128"
  shows "toLowerCase ucd (c # s) \<noteq> []"
proof -
  have l: "\<not> is_lead c" using assms by (simp add: is_lead_def)
  have "StringToCodePoints (c # s) = c # StringToCodePoints s"
    using l by (cases s) simp_all
  moreover have "\<exists>x. lower_point ucd c = [x]"
    using assms by (simp add: lower_point_def)
  ultimately show ?thesis
    using assms
    by (auto simp: toLowerCase_def CodePointsToString_def UTF16EncodeCodePoint_nonempty)
qed

lemma names_nonempty_ascii:
  assumes "origin r = co # so" "co < 128" "destination r = cd # sd" "cd < 128"
  shows "names_nonempty ucd r"
  unfolding names_nonempty_def assms(1,3) using assms(2,4) by (simp add: ascii_head_nonempty)

lemma names_nonempty_head:
  "ascii_head (origin r) \<Longrightarrow> ascii_head (destination r) \<Longrightarrow> names_nonempty ucd r"
  by (auto simp: ascii_head_def names_nonempty_def ascii_head_nonempty split: list.splits)

lemma routes_module_names: "\<forall>r\<in>set routes_module. names_nonempty ucd r"
proof -
  have "list_all (\<lambda>r. ascii_head (origin r) \<and> ascii_head (destination r)) routes_module"
    by (simp add: routes_module_def ascii_head_def units_def)
  then show ?thesis by (auto simp: list_all_iff names_nonempty_head)
qed

lemma routes_object_names: "\<forall>r\<in>set routes_object. names_nonempty ucd r"
proof -
  have "list_all (\<lambda>r. ascii_head (origin r) \<and> ascii_head (destination r)) routes_object"
    by (simp add: routes_object_def ascii_head_def units_def)
  then show ?thesis by (auto simp: list_all_iff names_nonempty_head)
qed

lemma routes_module_positive: "\<forall>r\<in>set routes_module. js_gt (distanceKm r) (Fin 0)"
proof -
  have "list_all (\<lambda>r. js_gt (distanceKm r) (Fin 0)) routes_module"
    by (simp add: routes_module_def js_gt_def)
  then show ?thesis by (simp only: list_all_iff)
qed

lemma routes_object_positive: "\<forall>r\<in>set routes_object. js_gt (distanceKm r) (Fin 0)"
proof -
  have "list_all (\<lambda>r. js_gt (distanceKm r) (Fin 0)) routes_object"
    by (simp add: routes_object_def js_gt_def)
  then show ?thesis by (simp only: list_all_iff)
qed

lemma object_is_find:
  "RoutesDB_object_findDistance ucd x y = findDistance_find ucd routes_object x y"
  unfolding RoutesDB_object_findDistance_def by (rule findDistance_for_find[OF routes_object_names])

lemma find_first_match:
  "is_first_match ucd routes a b
     (case find (route_matches ucd a b) routes of Some r \<Rightarrow> Some (distanceKm r) | None \<Rightarrow> None)"
proof (cases "find (route_matches ucd a b) routes")
  case None
  then have "\<forall>r\<in>set routes. \<not> route_matches ucd a b r" by (simp add: find_None_iff)
  then show ?thesis unfolding None is_first_match_def by simp
next
  case (Some r)
  then obtain i where "i < length routes" "route_matches ucd a b (routes ! i)" "r = routes ! i"
    "\<forall>j<i. \<not> route_matches ucd a b (routes ! j)"
    unfolding find_Some_iff by blast
  then show ?thesis unfolding Some is_first_match_def by auto
qed

lemma find_positive:
  assumes "\<forall>r\<in>set routes. js_gt (distanceKm r) (Fin 0)"
  shows "positive_or_null
     (case find (route_matches ucd a b) routes of Some r \<Rightarrow> Some (distanceKm r) | None \<Rightarrow> None)"
proof (cases "find (route_matches ucd a b) routes")
  case None
  then show ?thesis by (simp add: positive_or_null_def)
next
  case (Some r)
  then have "r \<in> set routes" unfolding find_Some_iff by auto
  then show ?thesis using assms Some by (simp add: positive_or_null_def)
qed

section \<open>Claims about the lookup\<close>


lemmas string_eval = units_def all_ws_def is_ws_def case_variant_def same_ascii_letter_def
  lower_point_def upper_point_def toLowerCase_def toUpperCase_def trim_def route_matches_def
  is_lead_def is_trail_def UTF16EncodeCodePoint_def CodePointsToString_def
  latin_def latin_lower_def latin_upper_def latin_lower_table_def latin_upper_table_def Let_def

lemma module_toronto_ottawa:
  "RoutesDB_module_findDistance latin (units ''Toronto, ON'') (units ''Ottawa, ON'')
     = Some (Fin 451)"
  by (simp add: RoutesDB_module_findDistance_def findDistance_find_def routes_module_def string_eval)

lemma object_toronto_ottawa:
  "RoutesDB_object_findDistance latin (units ''Toronto, ON'') (units ''Ottawa, ON'')
     = Some (Fin 451)"
  by (simp add: object_is_find findDistance_find_def routes_object_def string_eval)

lemma module_long_s:
  "RoutesDB_module_findDistance latin (383 # units ''eattle, wa'') (units ''Vancouver, BC'')
     = None"
  by (simp add: RoutesDB_module_findDistance_def findDistance_find_def routes_module_def string_eval)

lemma module_upper_s:
  "RoutesDB_module_findDistance latin (units ''SEATTLE, WA'') (units ''Vancouver, BC'')
     = Some (Fin 230)"
  by (simp add: RoutesDB_module_findDistance_def findDistance_find_def routes_module_def string_eval)

lemma object_long_s:
  "RoutesDB_object_findDistance latin (383 # units ''eattle, wa'') (units ''Vancouver, BC'')
     = None"
  by (simp add: object_is_find findDistance_find_def routes_object_def string_eval)

lemma object_upper_s:
  "RoutesDB_object_findDistance latin (units ''SEATTLE, WA'') (units ''Vancouver, BC'')
     = Some (Fin 230)"
  by (simp add: object_is_find findDistance_find_def routes_object_def string_eval)

lemma upper_long_s:
  "toUpperCase latin (383 # units ''eattle, wa'') = units ''SEATTLE, WA''"
  by (simp add: string_eval)

lemma lower_long_s:
  "toLowerCase latin (383 # units ''eattle, wa'') = 383 # units ''eattle, wa''"
  by (simp add: string_eval)


text \<open>
  C6 (amended). For every pair of strings, \<open>findDistance\<close> of either route table
  gives the same result in both directions, and the result does not change when an
  argument is padded with white space at either end or changed in the case of its ASCII
  letters. This holds whatever the Unicode data of the non-ASCII code points are.
\<close>

theorem findDistance_symmetric_normalised:
  assumes "all_ws w1" "all_ws w2" "all_ws w3" "all_ws w4" "case_variant a a'" "case_variant b b'"
  shows "RoutesDB_module_findDistance ucd a b = RoutesDB_module_findDistance ucd b a
       \<and> RoutesDB_module_findDistance ucd (w1 @ a' @ w2) (w3 @ b' @ w4)
           = RoutesDB_module_findDistance ucd a b
       \<and> RoutesDB_object_findDistance ucd a b = RoutesDB_object_findDistance ucd b a
       \<and> RoutesDB_object_findDistance ucd (w1 @ a' @ w2) (w3 @ b' @ w4)
           = RoutesDB_object_findDistance ucd a b"
  unfolding RoutesDB_module_findDistance_def object_is_find
  using findDistance_find_sym[of ucd _ a b] findDistance_find_variant[OF assms, of ucd]
  by simp

theorem findDistance_symmetric_normalised_witness:
  "all_ws (units '' '') \<and> all_ws []
   \<and> case_variant (units ''Toronto, ON'') (units ''toronto, on'')
   \<and> case_variant (units ''Ottawa, ON'') (units ''OTTAWA, ON'')
   \<and> RoutesDB_module_findDistance latin (units ''Ottawa, ON'') (units ''Toronto, ON'')
       = Some (Fin 451)
   \<and> RoutesDB_module_findDistance latin
        (units '' '' @ units ''toronto, on'' @ units '' '') ([] @ units ''OTTAWA, ON'' @ [])
       = Some (Fin 451)
   \<and> RoutesDB_object_findDistance latin (units ''Ottawa, ON'') (units ''Toronto, ON'')
       = Some (Fin 451)
   \<and> RoutesDB_object_findDistance latin
        (units '' '' @ units ''toronto, on'' @ units '' '') ([] @ units ''OTTAWA, ON'' @ [])
       = Some (Fin 451)"
proof -
  have h1: "all_ws (units '' '')" by (simp add: string_eval)
  have h2: "all_ws []" by (simp add: string_eval)
  have h3: "case_variant (units ''Toronto, ON'') (units ''toronto, on'')" by (simp add: string_eval)
  have h4: "case_variant (units ''Ottawa, ON'') (units ''OTTAWA, ON'')" by (simp add: string_eval)
  note t = findDistance_symmetric_normalised[OF h1 h1 h2 h2 h3 h4, of latin]
  have m1: "RoutesDB_module_findDistance latin (units ''Ottawa, ON'') (units ''Toronto, ON'')
      = Some (Fin 451)"
    unfolding t[THEN conjunct1, symmetric] by (rule module_toronto_ottawa)
  have m2: "RoutesDB_module_findDistance latin
        (units '' '' @ units ''toronto, on'' @ units '' '') ([] @ units ''OTTAWA, ON'' @ [])
      = Some (Fin 451)"
    unfolding t[THEN conjunct2, THEN conjunct1] by (rule module_toronto_ottawa)
  have o1: "RoutesDB_object_findDistance latin (units ''Ottawa, ON'') (units ''Toronto, ON'')
      = Some (Fin 451)"
    unfolding t[THEN conjunct2, THEN conjunct2, THEN conjunct1, symmetric]
    by (rule object_toronto_ottawa)
  have o2: "RoutesDB_object_findDistance latin
        (units '' '' @ units ''toronto, on'' @ units '' '') ([] @ units ''OTTAWA, ON'' @ [])
      = Some (Fin 451)"
    unfolding t[THEN conjunct2, THEN conjunct2, THEN conjunct2] by (rule object_toronto_ottawa)
  show ?thesis by (intro conjI h1 h2 h3 h4 m1 m2 o1 o2)
qed

text \<open>
  C6 as stated does not hold for every change of letter case. U+017F, the long s, has
  the upper-case image \<open>S\<close>, but \<open>toLowerCase\<close> leaves it as it is: the name
  written with it finds no route, the same name in upper case finds Seattle.
\<close>

theorem findDistance_case_counterexample:
  "toUpperCase latin (383 # units ''eattle, wa'') = units ''SEATTLE, WA''
   \<and> RoutesDB_module_findDistance latin (383 # units ''eattle, wa'') (units ''Vancouver, BC'')
       = None
   \<and> RoutesDB_module_findDistance latin (units ''SEATTLE, WA'') (units ''Vancouver, BC'')
       = Some (Fin 230)
   \<and> RoutesDB_object_findDistance latin (383 # units ''eattle, wa'') (units ''Vancouver, BC'')
       = None
   \<and> RoutesDB_object_findDistance latin (units ''SEATTLE, WA'') (units ''Vancouver, BC'')
       = Some (Fin 230)"
  by (intro conjI upper_long_s module_long_s module_upper_s object_long_s object_upper_s)

text \<open>
  C7. For every pair of strings, \<open>findDistance\<close> of either route table returns
  \<open>null\<close> when no route matches the normalised names in either direction, and
  otherwise the distance of the first matching route in table order, a number greater
  than 0 and never 0; an empty argument gives \<open>null\<close>. The function is total: it
  has no error to raise on strings. This holds whatever the Unicode data of the
  non-ASCII code points are.
\<close>

theorem findDistance_first_match_or_null:
  "is_first_match ucd routes_module (toLowerCase ucd (trim a)) (toLowerCase ucd (trim b))
      (RoutesDB_module_findDistance ucd a b)
   \<and> positive_or_null (RoutesDB_module_findDistance ucd a b)
   \<and> RoutesDB_module_findDistance ucd a b \<noteq> Some (Fin 0)
   \<and> (a = [] \<or> b = [] \<longrightarrow> RoutesDB_module_findDistance ucd a b = None)
   \<and> is_first_match ucd routes_object (toLowerCase ucd (trim a)) (toLowerCase ucd (trim b))
      (RoutesDB_object_findDistance ucd a b)
   \<and> positive_or_null (RoutesDB_object_findDistance ucd a b)
   \<and> RoutesDB_object_findDistance ucd a b \<noteq> Some (Fin 0)
   \<and> (a = [] \<or> b = [] \<longrightarrow> RoutesDB_object_findDistance ucd a b = None)"
proof -
  let ?A = "toLowerCase ucd (trim a)" and ?B = "toLowerCase ucd (trim b)"
  have m: "RoutesDB_module_findDistance ucd a b
      = (case find (route_matches ucd ?A ?B) routes_module of
           Some r \<Rightarrow> Some (distanceKm r) | None \<Rightarrow> None)"
    by (simp add: RoutesDB_module_findDistance_def findDistance_find_def Let_def)
  have ob: "RoutesDB_object_findDistance ucd a b
      = (case find (route_matches ucd ?A ?B) routes_object of
           Some r \<Rightarrow> Some (distanceKm r) | None \<Rightarrow> None)"
    by (simp add: object_is_find findDistance_find_def Let_def)
  have nz: "res \<noteq> Some (Fin 0)" if "positive_or_null res" for res
    using that by (auto simp: positive_or_null_def js_gt_def)
  have e: "?A = [] \<or> ?B = []" if "a = [] \<or> b = []" using that by auto
  have em: "RoutesDB_module_findDistance ucd a b = None" if "a = [] \<or> b = []"
    unfolding m using no_match_empty[OF routes_module_names e[OF that]] by simp
  have eo: "RoutesDB_object_findDistance ucd a b = None" if "a = [] \<or> b = []"
    unfolding ob using no_match_empty[OF routes_object_names e[OF that]] by simp
  have f1: "is_first_match ucd routes_module ?A ?B (RoutesDB_module_findDistance ucd a b)"
    unfolding m by (rule find_first_match)
  have f2: "is_first_match ucd routes_object ?A ?B (RoutesDB_object_findDistance ucd a b)"
    unfolding ob by (rule find_first_match)
  have p1: "positive_or_null (RoutesDB_module_findDistance ucd a b)"
    unfolding m by (rule find_positive[OF routes_module_positive])
  have p2: "positive_or_null (RoutesDB_object_findDistance ucd a b)"
    unfolding ob by (rule find_positive[OF routes_object_positive])
  show ?thesis using f1 f2 p1 p2 nz[OF p1] nz[OF p2] em eo by blast
qed

lemma module_nowhere:
  "RoutesDB_module_findDistance latin (units ''Nowhere'') (units ''Toronto, ON'') = None"
  by (simp add: RoutesDB_module_findDistance_def findDistance_find_def routes_module_def string_eval)

theorem findDistance_first_match_or_null_witness:
  "RoutesDB_module_findDistance latin (units ''Toronto, ON'') (units ''Ottawa, ON'')
      = Some (Fin 451)
   \<and> is_first_match latin routes_module
        (toLowerCase latin (trim (units ''Toronto, ON'')))
        (toLowerCase latin (trim (units ''Ottawa, ON''))) (Some (Fin 451))
   \<and> positive_or_null (Some (Fin 451))
   \<and> RoutesDB_module_findDistance latin [] (units ''Ottawa, ON'') = None
   \<and> RoutesDB_object_findDistance latin [] (units ''Ottawa, ON'') = None
   \<and> RoutesDB_module_findDistance latin (units ''Nowhere'') (units ''Toronto, ON'') = None
   \<and> is_first_match latin routes_module
        (toLowerCase latin (trim (units ''Nowhere'')))
        (toLowerCase latin (trim (units ''Toronto, ON''))) None"
proof -
  note t1 = findDistance_first_match_or_null[of latin "units ''Toronto, ON''" "units ''Ottawa, ON''"]
  note t2 = findDistance_first_match_or_null[of latin "[]" "units ''Ottawa, ON''"]
  note t3 = findDistance_first_match_or_null[of latin "units ''Nowhere''" "units ''Toronto, ON''"]
  have a: "is_first_match latin routes_module
        (toLowerCase latin (trim (units ''Toronto, ON'')))
        (toLowerCase latin (trim (units ''Ottawa, ON''))) (Some (Fin 451))"
    using t1[THEN conjunct1] unfolding module_toronto_ottawa .
  have b: "positive_or_null (Some (Fin 451))"
    using t1[THEN conjunct2, THEN conjunct1] unfolding module_toronto_ottawa .
  have c: "RoutesDB_module_findDistance latin [] (units ''Ottawa, ON'') = None"
    using t2 by blast
  have d: "RoutesDB_object_findDistance latin [] (units ''Ottawa, ON'') = None"
    using t2 by blast
  have e: "is_first_match latin routes_module
        (toLowerCase latin (trim (units ''Nowhere'')))
        (toLowerCase latin (trim (units ''Toronto, ON''))) None"
    using t3[THEN conjunct1] unfolding module_nowhere .
  show ?thesis by (intro conjI module_toronto_ottawa a b c d module_nowhere e)
qed

end
